theory Spec2Isabelle
  imports Main "HOL-Library.Word"
begin

text \<open>A shallow embedding of the Ethereum-style event filter and subscription
  engine of the node (\<^verbatim>\<open>app/submodule/eth/eth_event_api.go\<close>): the log decoder, the
  block-range parser, the wait for the event index, the filter and subscription
  registries, and the per-subscription pipeline.\<close>

section \<open>Errors\<close>

text \<open>Go errors as values. \<open>Errorf\<close> carries the message of a \<^verbatim>\<open>fmt.Errorf\<close> without
  \<^verbatim>\<open>%w\<close>; \<open>Wrapf\<close> is \<^verbatim>\<open>fmt.Errorf\<close> with \<^verbatim>\<open>%w\<close>, which keeps the wrapped error in
  its chain; \<open>External\<close> is an error produced by a collaborator outside this file.\<close>

datatype error =
    ErrNotSupported
  | ErrFilterNotFound
  | DeadlineExceeded
  | Canceled
  | External string
  | Errorf string
  | Wrapf string error

text \<open>\<^verbatim>\<open>errors.Is(err, target)\<close> for a sentinel target: walks the chain of wrapped errors.\<close>

fun errors_Is :: "error \<Rightarrow> error \<Rightarrow> bool" where
  "errors_Is (Wrapf msg e) target = (Wrapf msg e = target \<or> errors_Is e target)"
| "errors_Is e target = (e = target)"

type_synonym byte = "8 word"

text \<open>\<^verbatim>\<open>abi.ChainEpoch\<close> is an \<^verbatim>\<open>int64\<close>: a 64-bit word, compared as a signed number
  (\<open><s\<close>, \<open>\<le>s\<close>), with wrapping arithmetic.\<close>

type_synonym ChainEpoch = "64 word"


section \<open>Log assembly: decoding event entries (ethLogFromEvent)\<close>

text \<open>\<^verbatim>\<open>types.EthHash\<close> is a \<^verbatim>\<open>[32]byte\<close> array; it is modelled as a byte list
  whose length the operations below keep at 32.\<close>

type_synonym EthHash = "byte list"

text \<open>\<^verbatim>\<open>types.EventEntry\<close>: the fields read by the decoder.\<close>

record EventEntry =
  Key :: string
  Codec :: "64 word"
  Val :: "byte list"

text \<open>\<^verbatim>\<open>cid.Raw\<close>, the multicodec code of raw bytes.\<close>

definition cid_Raw :: "64 word" where
  "cid_Raw = 0x55"

definition EthHash_zero :: EthHash where
  "EthHash_zero = replicate 32 0"

text \<open>Go compares strings bytewise and lexicographically; this is \<^verbatim>\<open>a <= b\<close>.\<close>

fun go_str_le :: "string \<Rightarrow> string \<Rightarrow> bool" where
  "go_str_le [] bs = True"
| "go_str_le (a # as) [] = False"
| "go_str_le (a # as) (b # bs) =
     (if (of_char a :: nat) < of_char b then True
      else if (of_char a :: nat) = of_char b then go_str_le as bs
      else False)"

text \<open>The guard \<^verbatim>\<open>len(entry.Key) == 2 && "t1" <= entry.Key && entry.Key <= "t4"\<close>.\<close>

definition is_topic_key :: "string \<Rightarrow> bool" where
  "is_topic_key k \<longleftrightarrow> length k = 2 \<and> go_str_le ''t1'' k \<and> go_str_le k ''t4''"

text \<open>\<^verbatim>\<open>idx := int(entry.Key[1] - '1')\<close>: a byte subtraction, read as an index.\<close>

definition topic_idx :: "string \<Rightarrow> nat" where
  "topic_idx k = unat ((of_char (k ! 1) :: byte) - of_char CHR ''1'')"

text \<open>Go's \<^verbatim>\<open>copy(dst, src)\<close> overwrites the first \<^verbatim>\<open>min(len(dst), len(src))\<close>
  elements of \<^verbatim>\<open>dst\<close>.\<close>

definition copy_bytes :: "byte list \<Rightarrow> byte list \<Rightarrow> byte list" where
  "copy_bytes dst src = take (length dst) src @ drop (length src) dst"

text \<open>The inner loop \<^verbatim>\<open>for len(topics) <= idx { topics = append(topics, EthHash{}) }\<close>.\<close>

function extend_topics :: "EthHash list \<Rightarrow> nat \<Rightarrow> EthHash list" where
  "extend_topics ts idx =
     (if length ts \<le> idx then extend_topics (ts @ [EthHash_zero]) idx else ts)"
  by pat_completeness auto
termination
  by (relation "measure (\<lambda>(ts, idx). Suc idx - length ts)") auto

declare extend_topics.simps [simp del]

text \<open>The local variables of \<^verbatim>\<open>ethLogFromEvent\<close>.\<close>

record log_state =
  topicsFound :: "bool list"
  topicsFoundCount :: int
  dataFound :: bool
  data :: "byte list"
  topics :: "EthHash list"

definition log_init :: log_state where
  "log_init = \<lparr> topicsFound = replicate 4 False, topicsFoundCount = 0,
                 dataFound = False, data = [], topics = [] \<rparr>"

text \<open>One iteration of the loop over the entries; \<open>None\<close> is the early
  \<^verbatim>\<open>return nil, nil, false\<close>.\<close>

definition log_step :: "log_state \<Rightarrow> EventEntry \<Rightarrow> log_state option" where
  "log_step s entry =
     (if Codec entry \<noteq> cid_Raw then None
      else if is_topic_key (Key entry) then
        (let idx = topic_idx (Key entry) in
         if length (Val entry) \<noteq> 32 then None
         else if topicsFound s ! idx then None
         else
           (let ts = extend_topics (topics s) idx in
            Some (s\<lparr> topicsFound := (topicsFound s)[idx := True],
                     topicsFoundCount := topicsFoundCount s + 1,
                     topics := ts[idx := copy_bytes (ts ! idx) (Val entry)] \<rparr>)))
      else if Key entry = ''d'' then
        (if dataFound s then None
         else Some (s\<lparr> dataFound := True, data := Val entry \<rparr>))
      else Some s)"

fun log_loop :: "log_state \<Rightarrow> EventEntry list \<Rightarrow> log_state option" where
  "log_loop s [] = Some s"
| "log_loop s (entry # entries) =
     (case log_step s entry of None \<Rightarrow> None | Some s' \<Rightarrow> log_loop s' entries)"

text \<open>The result \<^verbatim>\<open>(data, topics, ok)\<close>: \<open>None\<close> is \<^verbatim>\<open>ok = false\<close>.\<close>

definition ethLogFromEvent :: "EventEntry list \<Rightarrow> (byte list \<times> EthHash list) option" where
  "ethLogFromEvent entries =
     (case log_loop log_init entries of
        None \<Rightarrow> None
      | Some s \<Rightarrow>
          if int (length (topics s)) \<noteq> topicsFoundCount s then None
          else Some (data s, topics s))"

subsection \<open>The conditions that the decoding rules name\<close>

definition topic_labels :: "string list" where
  "topic_labels = [''t1'', ''t2'', ''t3'', ''t4'']"

definition topic_entries :: "EventEntry list \<Rightarrow> EventEntry list" where
  "topic_entries es = filter (\<lambda>e. Key e \<in> set topic_labels) es"

definition data_entries :: "EventEntry list \<Rightarrow> EventEntry list" where
  "data_entries es = filter (\<lambda>e. Key e = ''d'') es"

definition other_label :: "EventEntry \<Rightarrow> bool" where
  "other_label e \<longleftrightarrow> Key e \<notin> set topic_labels \<and> Key e \<noteq> ''d''"

text \<open>Label \<open>t(i+1)\<close> claims slot \<open>i\<close>.\<close>

definition label_slot :: "string \<Rightarrow> nat" where
  "label_slot k = (if k = ''t1'' then 0 else if k = ''t2'' then 1
                   else if k = ''t3'' then 2 else 3)"

definition filled_slots :: "EventEntry list \<Rightarrow> nat set" where
  "filled_slots es = set (map (label_slot \<circ> Key) (topic_entries es))"

definition has_nonraw :: "EventEntry list \<Rightarrow> bool" where
  "has_nonraw es \<longleftrightarrow> list_ex (\<lambda>e. Codec e \<noteq> cid_Raw) es"

definition has_missized_topic :: "EventEntry list \<Rightarrow> bool" where
  "has_missized_topic es \<longleftrightarrow> list_ex (\<lambda>e. length (Val e) \<noteq> 32) (topic_entries es)"

definition has_duplicate_slot :: "EventEntry list \<Rightarrow> bool" where
  "has_duplicate_slot es \<longleftrightarrow> \<not> distinct (map (label_slot \<circ> Key) (topic_entries es))"

definition has_second_data :: "EventEntry list \<Rightarrow> bool" where
  "has_second_data es \<longleftrightarrow> 2 \<le> length (data_entries es)"

definition has_gap :: "EventEntry list \<Rightarrow> bool" where
  "has_gap es \<longleftrightarrow> filled_slots es \<noteq> {..< card (filled_slots es)}"

definition decodable :: "EventEntry list \<Rightarrow> bool" where
  "decodable es \<longleftrightarrow>
     \<not> has_nonraw es \<and> \<not> has_missized_topic es \<and> \<not> has_duplicate_slot es \<and>
     \<not> has_second_data es"

text \<open>What the loop's variables hold after the entries \<open>es\<close> have been accepted.\<close>

definition log_inv :: "EventEntry list \<Rightarrow> log_state \<Rightarrow> bool" where
  "log_inv es s \<longleftrightarrow>
     length (topicsFound s) = 4 \<and>
     (\<forall>i<4. topicsFound s ! i = (i \<in> filled_slots es)) \<and>
     topicsFoundCount s = int (length (topic_entries es)) \<and>
     dataFound s = (data_entries es \<noteq> []) \<and>
     (\<forall>i. i < length (topics s) \<longleftrightarrow> (\<exists>j\<in>filled_slots es. i \<le> j)) \<and>
     (\<forall>e\<in>set (topic_entries es). topics s ! label_slot (Key e) = Val e) \<and>
     (\<forall>h\<in>set (topics s). length h = 32)"


section \<open>Building logs from collected events (ethFilterLogsFromEvents)\<close>

type_synonym Address = "byte list"
type_synonym EthAddress = "byte list"
type_synonym Cid = "byte list"
type_synonym TipSetKey = "Cid list"

text \<open>\<^verbatim>\<open>filter.CollectedEvent\<close>.\<close>

record CollectedEvent =
  Entries :: "EventEntry list"
  EmitterAddr :: Address
  EventIdx :: "64 word"
  Reverted :: bool
  Height :: ChainEpoch
  EvTipSetKey :: TipSetKey
  MsgIdx :: "64 word"
  MsgCid :: Cid

text \<open>\<^verbatim>\<open>types.EthLog\<close>.\<close>

record EthLog =
  LogAddress :: EthAddress
  Data :: "byte list"
  Topics :: "EthHash list"
  Removed :: bool
  LogIndex :: "64 word"
  TransactionIndex :: "64 word"
  TransactionHash :: EthHash
  BlockHash :: EthHash
  BlockNumber :: "64 word"

definition EmptyEthHash :: EthHash where
  "EmptyEthHash = replicate 32 0"

text \<open>The conversions that \<^verbatim>\<open>ethFilterLogsFromEvents\<close> calls and that live outside this
  file (address and hash conversions, the message store lookup behind
  \<^verbatim>\<open>ethTxHashFromMessageCid\<close>) are parameters.\<close>

record log_env =
  EthAddressFromFilecoinAddress :: "Address \<Rightarrow> error + EthAddress"
  ethTxHashFromMessageCid :: "Cid \<Rightarrow> error + EthHash"
  TipSetKey_Cid :: "TipSetKey \<Rightarrow> error + Cid"
  EthHashFromCid :: "Cid \<Rightarrow> error + EthHash"

text \<open>The loop of \<^verbatim>\<open>ethFilterLogsFromEvents\<close>, with the slice \<^verbatim>\<open>logs\<close> as accumulator.
  \<^verbatim>\<open>continue\<close> is the recursive call on the unchanged accumulator; \<open>Inl\<close> is
  \<^verbatim>\<open>return nil, err\<close>.\<close>

fun logs_loop :: "log_env \<Rightarrow> EthLog list \<Rightarrow> CollectedEvent list \<Rightarrow> error + EthLog list" where
  "logs_loop env logs [] = Inr logs"
| "logs_loop env logs (ev # evs) =
     (case ethLogFromEvent (Entries ev) of
        None \<Rightarrow> logs_loop env logs evs
      | Some (d, ts) \<Rightarrow>
          (case EthAddressFromFilecoinAddress env (EmitterAddr ev) of
             Inl err \<Rightarrow> Inl err
           | Inr addr \<Rightarrow>
               (case ethTxHashFromMessageCid env (MsgCid ev) of
                  Inl err \<Rightarrow> Inl err
                | Inr txh \<Rightarrow>
                    if txh = EmptyEthHash then logs_loop env logs evs
                    else
                      (case TipSetKey_Cid env (EvTipSetKey ev) of
                         Inl err \<Rightarrow> Inl err
                       | Inr c \<Rightarrow>
                           (case EthHashFromCid env c of
                              Inl err \<Rightarrow> Inl err
                            | Inr bh \<Rightarrow>
                                logs_loop env
                                  (logs @ [\<lparr> LogAddress = addr, Data = d, Topics = ts,
                                             Removed = Reverted ev, LogIndex = EventIdx ev,
                                             TransactionIndex = MsgIdx ev,
                                             TransactionHash = txh, BlockHash = bh,
                                             BlockNumber = Height ev \<rparr>])
                                  evs)))))"

definition ethFilterLogsFromEvents :: "log_env \<Rightarrow> CollectedEvent list \<Rightarrow> error + EthLog list" where
  "ethFilterLogsFromEvents env evs = logs_loop env [] evs"

text \<open>\<^verbatim>\<open>types.EthFilterResult\<close>: its \<^verbatim>\<open>Results\<close> hold logs or hashes.\<close>

datatype result_item = LogItem EthLog | HashItem EthHash

record EthFilterResult =
  Results :: "result_item list"

definition ethFilterResultFromEvents ::
    "log_env \<Rightarrow> CollectedEvent list \<Rightarrow> error + EthFilterResult" where
  "ethFilterResultFromEvents env evs =
     (case ethFilterLogsFromEvents env evs of
        Inl err \<Rightarrow> Inl err
      | Inr logs \<Rightarrow> Inr \<lparr> Results = map LogItem logs \<rparr>)"

text \<open>An event decodes when \<^verbatim>\<open>ethLogFromEvent\<close> accepts its entries.\<close>

definition decodes :: "CollectedEvent \<Rightarrow> bool" where
  "decodes ev \<longleftrightarrow> ethLogFromEvent (Entries ev) \<noteq> None"


section \<open>Block ranges (parseBlockRange)\<close>

text \<open>\<^verbatim>\<open>strings.HasPrefix\<close>.\<close>

definition HasPrefix :: "string \<Rightarrow> string \<Rightarrow> bool" where
  "HasPrefix s p \<longleftrightarrow> take (length p) s = p"

text \<open>The error messages of \<^verbatim>\<open>parseBlockRange\<close> (without their formatted numbers).\<close>

definition err_from_not_hex :: error where
  "err_from_not_hex = Errorf ''FromBlock is not a hex''"

definition err_to_not_hex :: error where
  "err_to_not_hex = Errorf ''ToBlock is not a hex''"

definition err_invalid_epoch :: error where
  "err_invalid_epoch = Errorf ''invalid epoch''"

definition err_too_far_future :: error where
  "err_too_far_future = Errorf ''invalid epoch range: to block is too far in the future''"

definition err_too_far_past :: error where
  "err_too_far_past = Errorf ''invalid epoch range: from block is too far in the past''"

definition err_inverted :: error where
  "err_inverted = Errorf ''invalid epoch range: to block must be after from block''"

definition err_range_too_large :: error where
  "err_range_too_large =
     Errorf ''invalid epoch range: range between to and from blocks is too large''"

text \<open>\<^verbatim>\<open>types.EthUint64FromHex\<close> is defined outside this file; it is the parameter
  \<open>hex\<close>, a function from the string to an error or a \<^verbatim>\<open>uint64\<close>. The conversion
  \<^verbatim>\<open>abi.ChainEpoch(epoch)\<close> keeps the 64 bits and reads them as signed.\<close>

type_synonym hex_parser = "string \<Rightarrow> error + 64 word"

text \<open>The first block of \<^verbatim>\<open>parseBlockRange\<close>: the value of \<^verbatim>\<open>minHeight\<close>.\<close>

definition parseBlockRange_from ::
    "hex_parser \<Rightarrow> ChainEpoch \<Rightarrow> string option \<Rightarrow> error + ChainEpoch" where
  "parseBlockRange_from hex heaviest fromBlock =
     (case fromBlock of
        None \<Rightarrow> Inr heaviest
      | Some s \<Rightarrow>
          if s = ''latest'' \<or> length s = 0 then Inr heaviest
          else if s = ''earliest'' then Inr 0
          else if \<not> HasPrefix s ''0x'' then Inl err_from_not_hex
          else (case hex s of
                  Inl err \<Rightarrow> Inl err_invalid_epoch
                | Inr epoch \<Rightarrow> Inr epoch))"

text \<open>The second block: the value of \<^verbatim>\<open>maxHeight\<close>.\<close>

definition parseBlockRange_to :: "hex_parser \<Rightarrow> string option \<Rightarrow> error + ChainEpoch" where
  "parseBlockRange_to hex toBlock =
     (case toBlock of
        None \<Rightarrow> Inr (- 1)
      | Some s \<Rightarrow>
          if s = ''latest'' \<or> length s = 0 then Inr (- 1)
          else if s = ''earliest'' then Inr 0
          else if \<not> HasPrefix s ''0x'' then Inl err_to_not_hex
          else (case hex s of
                  Inl err \<Rightarrow> Inl err_invalid_epoch
                | Inr epoch \<Rightarrow> Inr epoch))"

text \<open>The third block: the validation against the operator's limit.\<close>

definition parseBlockRange_check ::
    "ChainEpoch \<Rightarrow> ChainEpoch \<Rightarrow> ChainEpoch \<Rightarrow> ChainEpoch \<Rightarrow> error + (ChainEpoch \<times> ChainEpoch)" where
  "parseBlockRange_check heaviest maxRange minHeight maxHeight =
     (if minHeight = - 1 \<and> 0 <s maxHeight then
        (if maxRange <s maxHeight - heaviest then Inl err_too_far_future
         else Inr (minHeight, maxHeight))
      else if 0 \<le>s minHeight \<and> maxHeight = - 1 then
        (if maxRange <s heaviest - minHeight then Inl err_too_far_past
         else Inr (minHeight, maxHeight))
      else if 0 \<le>s minHeight \<and> 0 \<le>s maxHeight then
        (if maxHeight <s minHeight then Inl err_inverted
         else if maxRange <s maxHeight - minHeight then Inl err_range_too_large
         else Inr (minHeight, maxHeight))
      else Inr (minHeight, maxHeight))"

definition parseBlockRange ::
    "hex_parser \<Rightarrow> ChainEpoch \<Rightarrow> string option \<Rightarrow> string option \<Rightarrow> ChainEpoch \<Rightarrow>
     error + (ChainEpoch \<times> ChainEpoch)" where
  "parseBlockRange hex heaviest fromBlock toBlock maxRange =
     (case parseBlockRange_from hex heaviest fromBlock of
        Inl err \<Rightarrow> Inl err
      | Inr minHeight \<Rightarrow>
          (case parseBlockRange_to hex toBlock of
             Inl err \<Rightarrow> Inl err
           | Inr maxHeight \<Rightarrow> parseBlockRange_check heaviest maxRange minHeight maxHeight))"




section \<open>Waiting for the event index (waitForHeightProcessed)\<close>

text \<open>The function talks to the chain store, to the event index and to its context.
  Each call it makes is recorded in a trace, and what the outside answers is given by
  an environment: the head of the chain, the answer of the index to the \<open>k\<close>-th call of
  \<^verbatim>\<open>IsHeightPast\<close> (another task may advance the index between two calls), and the
  events that the \<^verbatim>\<open>select\<close> of the loop receives, in order.\<close>

datatype wait_action =
    GetHead
  | WithTimeout nat
  | IsHeightPast "64 word"
  | SubscribeUpdates
  | UnsubscribeUpdates
  | CancelTimeout
  | Select

text \<open>What a \<^verbatim>\<open>select\<close> receives: a notification on the update channel, or the end of
  the context with the error of \<^verbatim>\<open>ctx.Err()\<close> (\<open>DeadlineExceeded\<close> when the timeout
  expired, \<open>Canceled\<close> when the caller cancelled).\<close>

datatype select_event = IndexUpdated | CtxDone error

record wait_env =
  head_height :: ChainEpoch
  past :: "nat \<Rightarrow> error + bool"
  events :: "select_event list"

text \<open>A call either returns (\<open>None\<close> is the \<^verbatim>\<open>nil\<close> error) or is still blocked in its
  \<^verbatim>\<open>select\<close> when the events of the environment are used up.\<close>

datatype wait_result = Blocked | Returned "error option"

text \<open>\<^verbatim>\<open>eventReadTimeout = 90 * time.Second\<close>, in seconds.\<close>

definition eventReadTimeout :: nat where
  "eventReadTimeout = 90"

definition err_future :: error where
  "err_future = Errorf ''height is in the future''"

definition err_check :: "error \<Rightarrow> error" where
  "err_check e = Wrapf ''failed to check if event index has events for given height'' e"

text \<open>The \<^verbatim>\<open>for { select { ... } }\<close> loop; \<open>k\<close> counts the calls of \<^verbatim>\<open>IsHeightPast\<close>
  made so far.\<close>

fun wait_loop ::
    "(nat \<Rightarrow> error + bool) \<Rightarrow> 64 word \<Rightarrow> nat \<Rightarrow> select_event list \<Rightarrow>
     wait_result \<times> wait_action list" where
  "wait_loop answers height k [] = (Blocked, [Select])"
| "wait_loop answers height k (IndexUpdated # evs) =
     (case answers k of
        Inl err \<Rightarrow> (Returned (Some (err_check err)), [Select, IsHeightPast height])
      | Inr b \<Rightarrow>
          if b then (Returned None, [Select, IsHeightPast height])
          else (case wait_loop answers height (Suc k) evs of
                  (r, tr) \<Rightarrow> (r, [Select, IsHeightPast height] @ tr)))"
| "wait_loop answers height k (CtxDone err # evs) = (Returned (Some err), [Select])"

text \<open>The deferred calls \<^verbatim>\<open>unSubscribeF()\<close> and \<^verbatim>\<open>cancel()\<close> run when the function
  returns, the last deferred first.\<close>

definition waitForHeightProcessed ::
    "wait_env \<Rightarrow> ChainEpoch \<Rightarrow> wait_result \<times> wait_action list" where
  "waitForHeightProcessed env height =
     (if head_height env <s height then (Returned (Some err_future), [GetHead])
      else
        (case past env 0 of
           Inl err \<Rightarrow>
             (Returned (Some (err_check err)),
              [GetHead, WithTimeout eventReadTimeout, IsHeightPast height, CancelTimeout])
         | Inr b \<Rightarrow>
             if b then
               (Returned None,
                [GetHead, WithTimeout eventReadTimeout, IsHeightPast height, CancelTimeout])
             else
               (case past env 1 of
                  Inl err \<Rightarrow>
                    (Returned (Some (err_check err)),
                     [GetHead, WithTimeout eventReadTimeout, IsHeightPast height,
                      SubscribeUpdates, IsHeightPast height, UnsubscribeUpdates, CancelTimeout])
                | Inr b' \<Rightarrow>
                    if b' then
                      (Returned None,
                       [GetHead, WithTimeout eventReadTimeout, IsHeightPast height,
                        SubscribeUpdates, IsHeightPast height, UnsubscribeUpdates,
                        CancelTimeout])
                    else
                      (case wait_loop (past env) height 2 (events env) of
                         (r, tr) \<Rightarrow>
                           (r, [GetHead, WithTimeout eventReadTimeout, IsHeightPast height,
                                SubscribeUpdates, IsHeightPast height] @ tr @
                               (if r = Blocked then []
                                else [UnsubscribeUpdates, CancelTimeout]))))))"

text \<open>The trace of \<open>n\<close> rounds of the loop that saw a notification and rechecked.\<close>

definition rechecks :: "nat \<Rightarrow> 64 word \<Rightarrow> wait_action list" where
  "rechecks n height = concat (replicate n [Select, IsHeightPast height])"


section \<open>Filters, filter managers and the filter store\<close>

type_synonym FilterID = "byte list"

text \<open>The filters that \<^verbatim>\<open>uninstallFilter\<close> tells apart by a type switch; \<open>OtherFilter\<close>
  is any implementation of \<^verbatim>\<open>filter.Filter\<close> that the switch does not know.\<close>

datatype Filter =
    EventFilter FilterID
  | TipSetFilter FilterID
  | MemPoolFilter FilterID
  | OtherFilter FilterID

fun ID :: "Filter \<Rightarrow> FilterID" where
  "ID (EventFilter i) = i"
| "ID (TipSetFilter i) = i"
| "ID (MemPoolFilter i) = i"
| "ID (OtherFilter i) = i"

text \<open>Modelled from the spec: the filter managers (\<^verbatim>\<open>filter.EventFilterManager\<close>,
  \<^verbatim>\<open>filter.TipSetFilterManager\<close>, \<^verbatim>\<open>filter.MemPoolFilterManager\<close>), which are outside the
  source at hand. A manager holds the identifiers of its installed filters.
  \<^verbatim>\<open>Install\<close> validates the criteria and allocates an identifier: it never registers
  partially, so either it fails and nothing is created, or the filter is registered
  under its new identifier. The outcome of the validation and the random identifier are
  given from outside. \<^verbatim>\<open>Remove\<close> unregisters; for an identifier that is not registered
  it reports \<^verbatim>\<open>ErrFilterNotFound\<close>, the error that \<^verbatim>\<open>uninstallFilter\<close> tolerates.\<close>

type_synonym manager = "FilterID set"

definition manager_Install :: "manager \<Rightarrow> error + FilterID \<Rightarrow> error + (FilterID \<times> manager)" where
  "manager_Install m outcome =
     (case outcome of Inl err \<Rightarrow> Inl err | Inr i \<Rightarrow> Inr (i, insert i m))"

definition manager_Remove :: "manager \<Rightarrow> FilterID \<Rightarrow> error + manager" where
  "manager_Remove m i = (if i \<in> m then Inr (m - {i}) else Inl ErrFilterNotFound)"

text \<open>Modelled from the spec: the filter store (\<^verbatim>\<open>filter.NewMemFilterStore\<close>), which is
  outside the source at hand. \<^verbatim>\<open>Add\<close> registers a filter and fails if the store is
  full or the identifier collides; \<^verbatim>\<open>Get\<close> returns the filter or the not-found
  error; \<^verbatim>\<open>Remove\<close> deletes the filter.\<close>

record FilterStore =
  store_filters :: "FilterID \<rightharpoonup> Filter"
  store_max :: nat

definition store_size :: "FilterStore \<Rightarrow> nat" where
  "store_size s = card (dom (store_filters s))"

definition store_Add :: "FilterStore \<Rightarrow> Filter \<Rightarrow> error + FilterStore" where
  "store_Add s f =
     (if store_max s \<le> store_size s then Inl (Errorf ''maximum number of filters registered'')
      else if ID f \<in> dom (store_filters s) then Inl (Errorf ''filter already registered'')
      else Inr (s\<lparr> store_filters := (store_filters s)(ID f \<mapsto> f) \<rparr>))"

definition store_Get :: "FilterStore \<Rightarrow> FilterID \<Rightarrow> error + Filter" where
  "store_Get s i =
     (case store_filters s i of None \<Rightarrow> Inl ErrFilterNotFound | Some f \<Rightarrow> Inr f)"

definition store_Remove :: "FilterStore \<Rightarrow> FilterID \<Rightarrow> error option \<times> FilterStore" where
  "store_Remove s i = (None, s\<lparr> store_filters := (store_filters s)(i := None) \<rparr>)"

section \<open>Subscriptions and the state of the event API\<close>

type_synonym SubID = "byte list"

text \<open>\<^verbatim>\<open>ethSubscription\<close>: the fields that change. \<open>quit\<close> is true while the field
  \<^verbatim>\<open>quit\<close> holds the cancel function and false once \<^verbatim>\<open>stop\<close> has set it to nil;
  \<open>ctx_cancelled\<close> records that the cancel function was called, which ends both stages;
  \<open>sendCond\<close> is true while the one-slot channel holds a signal.\<close>

record ethSubscription =
  sub_id :: SubID
  filters :: "Filter list"
  quit :: bool
  ctx_cancelled :: bool
  sendQueueLen :: int
  toSend :: "byte list list"
  sendCond :: bool
  lastSentTipset :: "TipSetKey option"

definition maxSendQueue :: int where
  "maxSendQueue = 20000"

text \<open>The state behind \<^verbatim>\<open>ethEventAPI\<close>. The subscription objects live in a heap (a list,
  an address is an index) because the subscription manager, the stages and the callers
  share them by pointer; \<open>subs\<close> is the map of \<^verbatim>\<open>EthSubscriptionManager\<close>, from identifiers
  to addresses. \<open>EventIndex\<close> tells whether the historical index exists.\<close>

record engine =
  FilterStore :: FilterStore
  EventFilterManager :: manager
  TipSetFilterManager :: manager
  MemPoolFilterManager :: manager
  EventIndex :: bool
  subs :: "SubID \<rightharpoonup> nat"
  heap :: "ethSubscription list"
  MaxFilterHeightRange :: ChainEpoch

text \<open>\<^verbatim>\<open>newEthEventAPI\<close> either leaves the filter store, the subscription manager and the
  three filter managers nil (the API is disabled) or sets all of them: the API is
  \<open>None\<close> or an engine, and a test such as \<^verbatim>\<open>e.FilterStore == nil\<close> is the test for
  \<open>None\<close>.\<close>

type_synonym ethEventAPI = "engine option"

text \<open>\<^verbatim>\<open>ethEventAPI.uninstallFilter\<close>.\<close>

definition remove_tolerant :: "manager \<Rightarrow> FilterID \<Rightarrow> error + manager" where
  "remove_tolerant m i =
     (case manager_Remove m i of
        Inl err \<Rightarrow> if \<not> errors_Is err ErrFilterNotFound then Inl err else Inr m
      | Inr m' \<Rightarrow> Inr m')"

definition uninstallFilter :: "engine \<Rightarrow> Filter \<Rightarrow> error option \<times> engine" where
  "uninstallFilter e f =
     (case
        (case f of
           EventFilter i \<Rightarrow>
             (case remove_tolerant (EventFilterManager e) (ID f) of
                Inl err \<Rightarrow> Inl err
              | Inr m \<Rightarrow> Inr (e\<lparr> EventFilterManager := m \<rparr>))
         | TipSetFilter i \<Rightarrow>
             (case remove_tolerant (TipSetFilterManager e) (ID f) of
                Inl err \<Rightarrow> Inl err
              | Inr m \<Rightarrow> Inr (e\<lparr> TipSetFilterManager := m \<rparr>))
         | MemPoolFilter i \<Rightarrow>
             (case remove_tolerant (MemPoolFilterManager e) (ID f) of
                Inl err \<Rightarrow> Inl err
              | Inr m \<Rightarrow> Inr (e\<lparr> MemPoolFilterManager := m \<rparr>))
         | OtherFilter i \<Rightarrow> Inl (Errorf ''unknown filter type''))
      of
        Inl err \<Rightarrow> (Some err, e)
      | Inr e' \<Rightarrow>
          (case store_Remove (FilterStore e') (ID f) of
             (r, s) \<Rightarrow> (r, e'\<lparr> FilterStore := s \<rparr>)))"

text \<open>\<^verbatim>\<open>ethEventAPI.EthUninstallFilter\<close>: the result \<^verbatim>\<open>(bool, error)\<close> and the new state.\<close>

definition EthUninstallFilter ::
    "ethEventAPI \<Rightarrow> FilterID \<Rightarrow> (bool \<times> error option) \<times> ethEventAPI" where
  "EthUninstallFilter api i =
     (case api of
        None \<Rightarrow> ((False, Some ErrNotSupported), api)
      | Some e \<Rightarrow>
          (case store_Get (FilterStore e) i of
             Inl err \<Rightarrow>
               if errors_Is err ErrFilterNotFound then ((False, None), api)
               else ((False, Some err), api)
           | Inr f \<Rightarrow>
               (case uninstallFilter e f of
                  (Some err, e') \<Rightarrow> ((False, Some err), Some e')
                | (None, e') \<Rightarrow> ((True, None), Some e'))))"


section \<open>Installing an event filter (EthNewFilter)\<close>

type_synonym EthTopicSpec = "EthHash list list"
type_synonym topic_keys = "string \<rightharpoonup> byte list list"
type_synonym codec_keys = "string \<rightharpoonup> (64 word \<times> byte list) list"

text \<open>\<^verbatim>\<open>types.EthFilterSpec\<close>; the fields \<^verbatim>\<open>Address\<close>, \<^verbatim>\<open>Topics\<close> and \<^verbatim>\<open>BlockHash\<close>
  carry the prefix \<open>Spec\<close>, the names being those of fields of a log.\<close>

record EthFilterSpec =
  FromBlock :: "string option"
  ToBlock :: "string option"
  SpecAddress :: "EthAddress list"
  SpecTopics :: EthTopicSpec
  SpecBlockHash :: "EthHash option"

text \<open>The arguments of \<^verbatim>\<open>EventFilterManager.Install\<close>; \<open>tipsetCid = None\<close> is
  \<^verbatim>\<open>cid.Undef\<close>.\<close>

record install_args =
  arg_minHeight :: ChainEpoch
  arg_maxHeight :: ChainEpoch
  arg_tipsetCid :: "Cid option"
  arg_addresses :: "Address list"
  arg_keys :: codec_keys
  arg_excludeReverted :: bool

text \<open>What the API functions ask of code outside this file: the hex parser, the head of
  the chain as \<^verbatim>\<open>ChainAPI.ChainHead\<close> reports it, the conversions of hashes, addresses
  and topics, for each manager what its \<^verbatim>\<open>Install\<close> decides (an error of the
  validation, or the fresh identifier), the outcome of \<^verbatim>\<open>uuid.NewRandom\<close> and whether
  the connection has a reverse client for callbacks.\<close>

record api_env =
  EthUint64FromHex :: hex_parser
  ChainHead :: "error + ChainEpoch"
  ToCid :: "EthHash \<Rightarrow> Cid"
  ToFilecoinAddress :: "EthAddress \<Rightarrow> error + Address"
  parseEthTopics :: "EthTopicSpec \<Rightarrow> error + topic_keys"
  install_event :: "install_args \<Rightarrow> error + FilterID"
  install_tipset :: "error + FilterID"
  install_mempool :: "error + FilterID"
  new_uuid :: "error + SubID"
  reverse_client :: bool

text \<open>\<^verbatim>\<open>keysToKeysWithCodec\<close>: every value gets the raw codec; a key whose list of
  values is empty gets no entry, since nothing is appended for it.\<close>

definition keysToKeysWithCodec :: "topic_keys \<Rightarrow> codec_keys" where
  "keysToKeysWithCodec keys =
     (\<lambda>k. case keys k of
             None \<Rightarrow> None
           | Some vs \<Rightarrow> if vs = [] then None else Some (map (\<lambda>vv. (cid_Raw, vv)) vs))"

text \<open>The loop that converts the addresses of a filter spec; it stops at the first
  address that does not convert.\<close>

fun convert_addresses ::
    "(EthAddress \<Rightarrow> error + Address) \<Rightarrow> Address list \<Rightarrow> EthAddress list \<Rightarrow> error + Address list" where
  "convert_addresses conv addresses [] = Inr addresses"
| "convert_addresses conv addresses (ea # eas) =
     (case conv ea of
        Inl err \<Rightarrow> Inl (Errorf ''invalid address'')
      | Inr a \<Rightarrow> convert_addresses conv (addresses @ [a]) eas)"

definition err_hash_and_range :: error where
  "err_hash_and_range = Errorf ''must not specify block hash and from/to block''"

text \<open>\<^verbatim>\<open>ethEventAPI.installEthFilterSpec\<close>.\<close>

definition installEthFilterSpec ::
    "api_env \<Rightarrow> engine \<Rightarrow> EthFilterSpec \<Rightarrow> error + (Filter \<times> engine)" where
  "installEthFilterSpec env e filterSpec =
     (case
        (case SpecBlockHash filterSpec of
           Some h \<Rightarrow>
             if FromBlock filterSpec \<noteq> None \<or> ToBlock filterSpec \<noteq> None
             then Inl err_hash_and_range
             else Inr (0, 0, Some (ToCid env h))
         | None \<Rightarrow>
             (case ChainHead env of
                Inl err \<Rightarrow> Inl err
              | Inr head \<Rightarrow>
                  (case parseBlockRange (EthUint64FromHex env) head (FromBlock filterSpec)
                          (ToBlock filterSpec) (MaxFilterHeightRange e) of
                     Inl err \<Rightarrow> Inl err
                   | Inr (minHeight, maxHeight) \<Rightarrow> Inr (minHeight, maxHeight, None))))
      of
        Inl err \<Rightarrow> Inl err
      | Inr (minHeight, maxHeight, tipsetCid) \<Rightarrow>
          (case convert_addresses (ToFilecoinAddress env) [] (SpecAddress filterSpec) of
             Inl err \<Rightarrow> Inl err
           | Inr addresses \<Rightarrow>
               (case parseEthTopics env (SpecTopics filterSpec) of
                  Inl err \<Rightarrow> Inl err
                | Inr keys \<Rightarrow>
                    (case manager_Install (EventFilterManager e)
                            (install_event env
                               \<lparr> arg_minHeight = minHeight, arg_maxHeight = maxHeight,
                                 arg_tipsetCid = tipsetCid, arg_addresses = addresses,
                                 arg_keys = keysToKeysWithCodec keys,
                                 arg_excludeReverted = True \<rparr>) of
                       Inl err \<Rightarrow> Inl err
                     | Inr (i, m) \<Rightarrow> Inr (EventFilter i, e\<lparr> EventFilterManager := m \<rparr>)))))"

text \<open>\<^verbatim>\<open>ethEventAPI.EthNewFilter\<close>.\<close>

definition EthNewFilter ::
    "api_env \<Rightarrow> ethEventAPI \<Rightarrow> EthFilterSpec \<Rightarrow> (error + FilterID) \<times> ethEventAPI" where
  "EthNewFilter env api filterSpec =
     (case api of
        None \<Rightarrow> (Inl ErrNotSupported, api)
      | Some e \<Rightarrow>
          (case installEthFilterSpec env e filterSpec of
             Inl err \<Rightarrow> (Inl err, api)
           | Inr (f, e1) \<Rightarrow>
               (case store_Add (FilterStore e1) f of
                  Inl err \<Rightarrow>
                    (case manager_Remove (EventFilterManager e1) (ID f) of
                       Inl err2 \<Rightarrow>
                         (Inl (Errorf ''encountered error while removing new filter''), Some e1)
                     | Inr m \<Rightarrow> (Inl err, Some (e1\<lparr> EventFilterManager := m \<rparr>)))
                | Inr s \<Rightarrow> (Inr (ID f), Some (e1\<lparr> FilterStore := s \<rparr>)))))"


section \<open>The subscription manager and the stages of a subscription\<close>

text \<open>The loop of \<^verbatim>\<open>ethSubscription.stop\<close> over the attached filters: a failure of
  \<^verbatim>\<open>uninstallFilter\<close> is logged and the loop goes on.\<close>

fun uninstall_all :: "engine \<Rightarrow> Filter list \<Rightarrow> engine" where
  "uninstall_all e [] = e"
| "uninstall_all e (f # fs) = uninstall_all (snd (uninstallFilter e f)) fs"

text \<open>\<^verbatim>\<open>ethSubscription.stop\<close>, on the subscription at address \<open>a\<close>.\<close>

definition stop :: "engine \<Rightarrow> nat \<Rightarrow> engine" where
  "stop e a =
     (let s = heap e ! a in
      if \<not> quit s then e
      else uninstall_all
             (e\<lparr> heap := (heap e)[a := s\<lparr> ctx_cancelled := True, quit := False \<rparr>] \<rparr>)
             (filters s))"

text \<open>\<^verbatim>\<open>EthSubscriptionManager.StartSubscription\<close>; the random identifier is given. The new
  object gets the next address of the heap. The two stages that it starts act when
  they receive input and are functions of their own below.\<close>

definition StartSubscription :: "error + SubID \<Rightarrow> engine \<Rightarrow> error + (nat \<times> engine)" where
  "StartSubscription rawid e =
     (case rawid of
        Inl err \<Rightarrow> Inl (Wrapf ''new uuid'' err)
      | Inr i \<Rightarrow>
          Inr (length (heap e),
               e\<lparr> heap := heap e @
                     [\<lparr> sub_id = i, filters = [], quit = True, ctx_cancelled = False,
                        sendQueueLen = 0, toSend = [], sendCond = False,
                        lastSentTipset = None \<rparr>],
                  subs := (subs e)(i \<mapsto> length (heap e)) \<rparr>))"

definition err_sub_not_found :: error where
  "err_sub_not_found = Errorf ''subscription not found''"

text \<open>\<^verbatim>\<open>EthSubscriptionManager.StopSubscription\<close>.\<close>

definition StopSubscription :: "engine \<Rightarrow> SubID \<Rightarrow> error option \<times> engine" where
  "StopSubscription e i =
     (case subs e i of
        None \<Rightarrow> (Some err_sub_not_found, e)
      | Some a \<Rightarrow> (None, (stop e a)\<lparr> subs := (subs (stop e a))(i := None) \<rparr>))"

text \<open>\<^verbatim>\<open>ethEventAPI.EthUnsubscribe\<close>.\<close>

definition EthUnsubscribe ::
    "ethEventAPI \<Rightarrow> SubID \<Rightarrow> (bool \<times> error option) \<times> ethEventAPI" where
  "EthUnsubscribe api i =
     (case api of
        None \<Rightarrow> ((False, Some ErrNotSupported), api)
      | Some e \<Rightarrow>
          (case StopSubscription e i of
             (Some err, e') \<Rightarrow> ((False, None), Some e')
           | (None, e') \<Rightarrow> ((True, None), Some e')))"

text \<open>\<^verbatim>\<open>ethSubscription.addFilter\<close>.\<close>

definition addFilter :: "engine \<Rightarrow> nat \<Rightarrow> Filter \<Rightarrow> engine" where
  "addFilter e a f =
     e\<lparr> heap := (heap e)[a := (heap e ! a)\<lparr> filters := filters (heap e ! a) @ [f] \<rparr>] \<rparr>"

text \<open>\<^verbatim>\<open>ethSubscription.send\<close>; \<open>marshalled\<close> is what \<^verbatim>\<open>json.Marshal\<close> made of the
  response. The counter is a Go \<^verbatim>\<open>int\<close>; it is modelled without a bound, which 64
  bits do not reach by counting.\<close>

definition send :: "engine \<Rightarrow> nat \<Rightarrow> error + byte list \<Rightarrow> engine" where
  "send e a marshalled =
     (case marshalled of
        Inl err \<Rightarrow> e
      | Inr outParam \<Rightarrow>
          (let s = (heap e ! a)\<lparr> toSend := toSend (heap e ! a) @ [outParam],
                                   sendQueueLen := sendQueueLen (heap e ! a) + 1 \<rparr>;
               e1 = e\<lparr> heap := (heap e)[a := s] \<rparr>
           in if maxSendQueue < sendQueueLen s then stop e1 a
              else e1\<lparr> heap := (heap e1)[a := s\<lparr> sendCond := True \<rparr>] \<rparr>))"

text \<open>\<^verbatim>\<open>types.EthSubscribeParams\<close> and its optional \<^verbatim>\<open>Params\<close>.\<close>

record EthSubscriptionParams =
  SubTopics :: EthTopicSpec
  SubAddress :: "EthAddress list"

record EthSubscribeParams =
  EventType :: string
  Params :: "EthSubscriptionParams option"

definition EthSubscribeEventTypeHeads :: string where
  "EthSubscribeEventTypeHeads = ''newHeads''"

definition EthSubscribeEventTypeLogs :: string where
  "EthSubscribeEventTypeLogs = ''logs''"

definition EthSubscribeEventTypePendingTransactions :: string where
  "EthSubscribeEventTypePendingTransactions = ''newPendingTransactions''"

definition err_no_callbacks :: error where
  "err_no_callbacks = Errorf ''connection does not support callbacks''"

definition err_unsupported_event_type :: error where
  "err_unsupported_event_type = Errorf ''unsupported event type''"

text \<open>\<^verbatim>\<open>ethEventAPI.EthSubscribe\<close> (the message of \<open>err_no_callbacks\<close> is written
  without its apostrophe); \<open>p\<close> is what \<^verbatim>\<open>jsonrpc.DecodeParams\<close> made of the raw
  parameters. Where the source calls \<^verbatim>\<open>e.EthUnsubscribe(ctx, sub.id)\<close> and drops its
  result, the model keeps the state that the call leaves.\<close>

definition EthSubscribe ::
    "api_env \<Rightarrow> ethEventAPI \<Rightarrow> error + EthSubscribeParams \<Rightarrow> (error + SubID) \<times> ethEventAPI" where
  "EthSubscribe env api p =
     (case p of
        Inl err \<Rightarrow> (Inl (Wrapf ''decoding params'' err), api)
      | Inr params \<Rightarrow>
          (case api of
             None \<Rightarrow> (Inl ErrNotSupported, api)
           | Some e \<Rightarrow>
               if \<not> reverse_client env then (Inl err_no_callbacks, api)
               else
                 (case StartSubscription (new_uuid env) e of
                    Inl err \<Rightarrow> (Inl err, api)
                  | Inr (a, e1) \<Rightarrow>
                      if EventType params = EthSubscribeEventTypeHeads then
                        (case manager_Install (TipSetFilterManager e1) (install_tipset env) of
                           Inl err \<Rightarrow>
                             (Inl err, snd (EthUnsubscribe (Some e1) (sub_id (heap e1 ! a))))
                         | Inr (i, m) \<Rightarrow>
                             (Inr (sub_id (heap e1 ! a)),
                              Some (addFilter (e1\<lparr> TipSetFilterManager := m \<rparr>) a
                                      (TipSetFilter i))))
                      else if EventType params = EthSubscribeEventTypeLogs then
                        (case (case Params params of
                                 None \<Rightarrow> Inr Map.empty
                               | Some ps \<Rightarrow> parseEthTopics env (SubTopics ps)) of
                           Inl err \<Rightarrow>
                             (Inl err, snd (EthUnsubscribe (Some e1) (sub_id (heap e1 ! a))))
                         | Inr keys \<Rightarrow>
                             (case (case Params params of
                                      None \<Rightarrow> Inr []
                                    | Some ps \<Rightarrow>
                                        convert_addresses (ToFilecoinAddress env) []
                                          (SubAddress ps)) of
                                Inl err \<Rightarrow> (Inl err, Some e1)
                              | Inr addresses \<Rightarrow>
                                  (case manager_Install (EventFilterManager e1)
                                          (install_event env
                                             \<lparr> arg_minHeight = - 1, arg_maxHeight = - 1,
                                               arg_tipsetCid = None,
                                               arg_addresses = addresses,
                                               arg_keys = keysToKeysWithCodec keys,
                                               arg_excludeReverted = True \<rparr>) of
                                     Inl err \<Rightarrow>
                                       (Inl err,
                                        snd (EthUnsubscribe (Some e1) (sub_id (heap e1 ! a))))
                                   | Inr (i, m) \<Rightarrow>
                                       (Inr (sub_id (heap e1 ! a)),
                                        Some (addFilter (e1\<lparr> EventFilterManager := m \<rparr>) a
                                                (EventFilter i))))))
                      else if EventType params = EthSubscribeEventTypePendingTransactions then
                        (case manager_Install (MemPoolFilterManager e1) (install_mempool env) of
                           Inl err \<Rightarrow>
                             (Inl err, snd (EthUnsubscribe (Some e1) (sub_id (heap e1 ! a))))
                         | Inr (i, m) \<Rightarrow>
                             (Inr (sub_id (heap e1 ! a)),
                              Some (addFilter (e1\<lparr> MemPoolFilterManager := m \<rparr>) a
                                      (MemPoolFilter i))))
                      else (Inl err_unsupported_event_type, Some e1))))"

text \<open>A filter is registered when the manager of its kind holds its identifier.\<close>

fun filter_registered :: "engine \<Rightarrow> Filter \<Rightarrow> bool" where
  "filter_registered e (EventFilter i) = (i \<in> EventFilterManager e)"
| "filter_registered e (TipSetFilter i) = (i \<in> TipSetFilterManager e)"
| "filter_registered e (MemPoolFilter i) = (i \<in> MemPoolFilterManager e)"
| "filter_registered e (OtherFilter i) = False"


section \<open>The ingest stage of a subscription (ethSubscription.start)\<close>

text \<open>\<^verbatim>\<open>types.TipSet\<close>: its height, its key and the key of its parents.\<close>

record TipSet =
  TsHeight :: ChainEpoch
  TsKey :: TipSetKey
  TsParents :: TipSetKey

text \<open>A block in Ethereum form and a signed message are opaque here.\<close>

type_synonym EthBlock = "byte list"
type_synonym SignedMessage = "byte list"

text \<open>What the stage receives on its input channel, by dynamic type.\<close>

datatype sub_input =
    InEvent CollectedEvent
  | InTipSet TipSet
  | InMessage SignedMessage
  | InOther

text \<open>What the stage hands to \<^verbatim>\<open>send\<close>.\<close>

datatype sub_value = ResultValue result_item | BlockValue EthBlock

text \<open>What the stage asks of code outside this file: the conversions for logs, the hash
  of a signed message, the lookup of a tipset by key (\<^verbatim>\<open>ChainGetTipSet\<close>), the
  composition of a block from a tipset and the JSON encoding of a response.\<close>

record stage_env =
  stage_logs :: log_env
  ethTxHashFromSignedMessage :: "SignedMessage \<Rightarrow> error + EthHash"
  ChainGetTipSet :: "TipSetKey \<Rightarrow> error + TipSet"
  newEthBlockFromFilecoinTipSet :: "TipSet \<Rightarrow> error + EthBlock"
  Marshal :: "SubID \<Rightarrow> sub_value \<Rightarrow> error + byte list"

text \<open>\<^verbatim>\<open>ethFilterResultFromMessages\<close>.\<close>

fun messages_loop ::
    "(SignedMessage \<Rightarrow> error + EthHash) \<Rightarrow> result_item list \<Rightarrow> SignedMessage list \<Rightarrow>
     error + result_item list" where
  "messages_loop conv res [] = Inr res"
| "messages_loop conv res (c # cs) =
     (case conv c of
        Inl err \<Rightarrow> Inl err
      | Inr h \<Rightarrow> messages_loop conv (res @ [HashItem h]) cs)"

definition ethFilterResultFromMessages ::
    "(SignedMessage \<Rightarrow> error + EthHash) \<Rightarrow> SignedMessage list \<Rightarrow> error + EthFilterResult" where
  "ethFilterResultFromMessages conv cs =
     (case messages_loop conv [] cs of
        Inl err \<Rightarrow> Inl err
      | Inr res \<Rightarrow> Inr \<lparr> Results = res \<rparr>)"

text \<open>The loop \<^verbatim>\<open>for _, r := range evs.Results { e.send(ctx, r) }\<close>.\<close>

fun send_each :: "stage_env \<Rightarrow> engine \<Rightarrow> nat \<Rightarrow> result_item list \<Rightarrow> engine" where
  "send_each env e a [] = e"
| "send_each env e a (r # rs) =
     send_each env (send e a (Marshal env (sub_id (heap e ! a)) (ResultValue r))) a rs"

text \<open>One round of the loop of \<^verbatim>\<open>start\<close>: the stage received \<open>v\<close> on its input channel.
  \<^verbatim>\<open>continue\<close> leaves the state as it is.\<close>

definition start_step :: "stage_env \<Rightarrow> engine \<Rightarrow> nat \<Rightarrow> sub_input \<Rightarrow> engine" where
  "start_step env e a v =
     (case v of
        InEvent vt \<Rightarrow>
          (case ethFilterResultFromEvents (stage_logs env) [vt] of
             Inl err \<Rightarrow> e
           | Inr evs \<Rightarrow> send_each env e a (Results evs))
      | InTipSet vt \<Rightarrow>
          if TsHeight vt = 0 then e
          else if lastSentTipset (heap e ! a) = Some (TsParents vt) then e
          else
            (case ChainGetTipSet env (TsParents vt) of
               Inl loadErr \<Rightarrow> e
             | Inr parentTipSet \<Rightarrow>
                 (case newEthBlockFromFilecoinTipSet env parentTipSet of
                    Inl ethBlockErr \<Rightarrow> e
                  | Inr ethBlock \<Rightarrow>
                      (let e1 = send e a
                                  (Marshal env (sub_id (heap e ! a)) (BlockValue ethBlock))
                       in e1\<lparr> heap := (heap e1)
                                [a := (heap e1 ! a)
                                   \<lparr> lastSentTipset := Some (TsParents vt) \<rparr>] \<rparr>)))
      | InMessage vt \<Rightarrow>
          (case ethFilterResultFromMessages (ethTxHashFromSignedMessage env) [vt] of
             Inl err \<Rightarrow> e
           | Inr evs \<Rightarrow> send_each env e a (Results evs))
      | InOther \<Rightarrow> e)"

text \<open>The stage over the inputs that its \<^verbatim>\<open>select\<close> receives before the context ends;
  it does nothing when the context has already ended at the start.\<close>

fun start_loop :: "stage_env \<Rightarrow> engine \<Rightarrow> nat \<Rightarrow> sub_input list \<Rightarrow> engine" where
  "start_loop env e a [] = e"
| "start_loop env e a (v # vs) = start_loop env (start_step env e a v) a vs"

definition start :: "stage_env \<Rightarrow> engine \<Rightarrow> nat \<Rightarrow> sub_input list \<Rightarrow> engine" where
  "start env e a received =
     (if ctx_cancelled (heap e ! a) then e else start_loop env e a received)"


section \<open>Historical queries (ethGetEventsForFilter)\<close>












section \<open>Properties of the log decoder\<close>

lemma of_char_nat_inj: "(of_char c :: nat) = of_char d \<Longrightarrow> c = d"
  by simp

lemma is_topic_key_iff: "is_topic_key k \<longleftrightarrow> k \<in> set topic_labels"
proof
  assume h: "is_topic_key k"
  then obtain a b where k: "k = [a, b]"
    by (auto simp: is_topic_key_def length_Suc_conv numeral_2_eq_2)
  from h k have a: "(of_char a :: nat) = 116"
    by (auto simp: is_topic_key_def split: if_splits)
  from h k a have b: "49 \<le> (of_char b :: nat) \<and> (of_char b :: nat) \<le> 52"
    by (auto simp: is_topic_key_def split: if_splits)
  then have "(of_char b :: nat) \<in> {49, 50, 51, 52}" by auto
  then have "(of_char b :: nat) \<in> of_char ` {CHR ''1'', CHR ''2'', CHR ''3'', CHR ''4''}"
    by simp
  then have "b \<in> {CHR ''1'', CHR ''2'', CHR ''3'', CHR ''4''}"
    by (simp only: inj_image_mem_iff [OF inj_of_char])
  moreover from a have "(of_char a :: nat) = of_char CHR ''t''" by simp
  then have "a = CHR ''t''" by (rule of_char_nat_inj)
  ultimately show "k \<in> set topic_labels"
    using k by (auto simp: topic_labels_def)
next
  assume "k \<in> set topic_labels"
  then show "is_topic_key k" by (auto simp: is_topic_key_def topic_labels_def)
qed

lemma topic_idx_label: "k \<in> set topic_labels \<Longrightarrow> topic_idx k = label_slot k"
  by (auto simp: topic_labels_def topic_idx_def label_slot_def)

lemma label_slot_lt: "label_slot k < 4"
  by (simp add: label_slot_def)

lemma extend_topics_eq:
  "extend_topics ts idx = ts @ replicate (Suc idx - length ts) EthHash_zero"
proof (induction ts idx rule: extend_topics.induct)
  case (1 ts idx)
  show ?case
  proof (cases "length ts \<le> idx")
    case True
    then have "Suc idx - length ts = Suc (idx - length ts)" by simp
    with True 1 show ?thesis
      by (subst extend_topics.simps) (simp add: replicate_app_Cons_same)
  next
    case False
    then show ?thesis by (subst extend_topics.simps) simp
  qed
qed

lemma log_loop_snoc:
  "log_loop s (es @ [e]) = (case log_loop s es of None \<Rightarrow> None | Some s' \<Rightarrow> log_step s' e)"
  by (induction es arbitrary: s) (auto split: option.splits)

lemma topic_entries_snoc:
  "topic_entries (es @ [e]) =
     topic_entries es @ (if Key e \<in> set topic_labels then [e] else [])"
  by (simp add: topic_entries_def)

lemma data_entries_snoc:
  "data_entries (es @ [e]) = data_entries es @ (if Key e = ''d'' then [e] else [])"
  by (simp add: data_entries_def)

lemma filled_slots_snoc:
  "filled_slots (es @ [e]) =
     (if Key e \<in> set topic_labels then insert (label_slot (Key e)) (filled_slots es)
      else filled_slots es)"
  by (simp add: filled_slots_def topic_entries_snoc)

lemma d_not_topic: "''d'' \<notin> set topic_labels"
  by (simp add: topic_labels_def)

lemma decodable_snoc:
  "decodable (es @ [e]) \<longleftrightarrow>
     decodable es \<and> Codec e = cid_Raw \<and>
     (Key e \<in> set topic_labels \<longrightarrow>
        length (Val e) = 32 \<and> label_slot (Key e) \<notin> filled_slots es) \<and>
     (Key e = ''d'' \<longrightarrow> data_entries es = [])"
  by (auto simp: decodable_def has_nonraw_def has_missized_topic_def has_duplicate_slot_def
        has_second_data_def topic_entries_snoc data_entries_snoc filled_slots_def list_ex_iff
        d_not_topic Suc_le_eq numeral_2_eq_2)

lemma log_inv_init: "log_inv [] log_init"
  by (simp add: log_inv_def log_init_def filled_slots_def topic_entries_def data_entries_def)

lemma decodable_Nil: "decodable []"
  by (simp add: decodable_def has_nonraw_def has_missized_topic_def has_duplicate_slot_def
        has_second_data_def topic_entries_def data_entries_def)

lemma copy_bytes_full: "length dst = length src \<Longrightarrow> copy_bytes dst src = src"
  by (simp add: copy_bytes_def)

lemma log_step_other:
  "Codec e = cid_Raw \<Longrightarrow> Key e \<notin> set topic_labels \<Longrightarrow> Key e \<noteq> ''d'' \<Longrightarrow> log_step s e = Some s"
  by (simp add: log_step_def is_topic_key_iff)

lemma log_step_data:
  "Codec e = cid_Raw \<Longrightarrow> Key e = ''d'' \<Longrightarrow>
   log_step s e = (if dataFound s then None else Some (s\<lparr> dataFound := True, data := Val e \<rparr>))"
  by (simp add: log_step_def is_topic_key_iff d_not_topic)

lemma log_step_topic:
  assumes "Codec e = cid_Raw" and "Key e \<in> set topic_labels"
  shows "log_step s e =
     (if length (Val e) \<noteq> 32 then None
      else if topicsFound s ! label_slot (Key e) then None
      else Some (s\<lparr> topicsFound := (topicsFound s)[label_slot (Key e) := True],
                    topicsFoundCount := topicsFoundCount s + 1,
                    topics := (extend_topics (topics s) (label_slot (Key e)))
                      [label_slot (Key e) :=
                         copy_bytes (extend_topics (topics s) (label_slot (Key e)) ! label_slot (Key e))
                           (Val e)] \<rparr>))"
  using assms by (simp add: log_step_def is_topic_key_iff topic_idx_label Let_def)

lemma log_inv_topic:
  assumes inv: "log_inv es s" and k: "Key e \<in> set topic_labels"
    and len: "length (Val e) = 32" and new: "label_slot (Key e) \<notin> filled_slots es"
  defines "idx \<equiv> label_slot (Key e)"
  defines "ts \<equiv> extend_topics (topics s) idx"
  shows "log_inv (es @ [e])
     (s\<lparr> topicsFound := (topicsFound s)[idx := True],
         topicsFoundCount := topicsFoundCount s + 1,
         topics := ts[idx := copy_bytes (ts ! idx) (Val e)] \<rparr>)"
proof -
  have idx4: "idx < 4" by (simp add: idx_def label_slot_lt)
  have ts: "ts = topics s @ replicate (Suc idx - length (topics s)) EthHash_zero"
    by (simp add: ts_def extend_topics_eq)
  have idx_ts: "idx < length ts" by (simp add: ts)
  have all32: "\<forall>h\<in>set ts. length h = 32"
    using inv by (auto simp: ts log_inv_def EthHash_zero_def)
  then have "length (ts ! idx) = 32" using idx_ts by simp
  then have cp: "copy_bytes (ts ! idx) (Val e) = Val e"
    using len by (simp add: copy_bytes_full)
  have fs: "filled_slots (es @ [e]) = insert idx (filled_slots es)"
    using k by (simp add: filled_slots_snoc idx_def)
  have te: "topic_entries (es @ [e]) = topic_entries es @ [e]"
    using k by (simp add: topic_entries_snoc)
  have de: "data_entries (es @ [e]) = data_entries es"
    using k d_not_topic by (auto simp: data_entries_snoc)
  have lenchar: "\<forall>i. i < length (topics s) \<longleftrightarrow> (\<exists>j\<in>filled_slots es. i \<le> j)"
    using inv by (simp add: log_inv_def)
  have old: "\<forall>e'\<in>set (topic_entries es). topics s ! label_slot (Key e') = Val e'"
    using inv by (simp add: log_inv_def)
  have c1: "length ((topicsFound s)[idx := True]) = 4"
    using inv by (simp add: log_inv_def)
  have c2: "\<forall>i<4. (topicsFound s)[idx := True] ! i = (i \<in> insert idx (filled_slots es))"
    using inv idx4 by (auto simp: log_inv_def nth_list_update)
  have c5: "\<forall>i. i < length (ts[idx := Val e]) \<longleftrightarrow> (\<exists>j\<in>insert idx (filled_slots es). i \<le> j)"
  proof
    fix i
    have "i < length ts \<longleftrightarrow> i < length (topics s) \<or> i \<le> idx"
      by (simp add: ts) arith
    then show "i < length (ts[idx := Val e]) \<longleftrightarrow> (\<exists>j\<in>insert idx (filled_slots es). i \<le> j)"
      using lenchar by auto
  qed
  have c6: "\<forall>e'\<in>set (topic_entries es @ [e]). ts[idx := Val e] ! label_slot (Key e') = Val e'"
  proof
    fix e' assume "e' \<in> set (topic_entries es @ [e])"
    then consider "e' = e" | "e' \<in> set (topic_entries es)" by auto
    then show "ts[idx := Val e] ! label_slot (Key e') = Val e'"
    proof cases
      case 1
      then show ?thesis using idx_ts by (simp add: idx_def)
    next
      case 2
      then have in_f: "label_slot (Key e') \<in> filled_slots es"
        by (auto simp: filled_slots_def)
      then have ne: "label_slot (Key e') \<noteq> idx" using new by (auto simp: idx_def)
      from in_f lenchar have "label_slot (Key e') < length (topics s)" by auto
      then have "ts ! label_slot (Key e') = topics s ! label_slot (Key e')"
        by (simp add: ts nth_append)
      with ne old 2 show ?thesis by simp
    qed
  qed
  have c7: "\<forall>h\<in>set (ts[idx := Val e]). length h = 32"
    using all32 len by (auto dest!: set_update_subset_insert [THEN subsetD])
  show ?thesis
    unfolding log_inv_def using c1 c2 c5 c6 c7 inv
    by (simp add: cp fs te de log_inv_def)
qed

lemma log_inv_data:
  assumes "log_inv es s" and "Key e = ''d''"
  shows "log_inv (es @ [e]) (s\<lparr> dataFound := True, data := Val e \<rparr>)"
  using assms d_not_topic
  by (auto simp: log_inv_def topic_entries_snoc data_entries_snoc filled_slots_snoc)

lemma log_inv_other:
  assumes "log_inv es s" and "Key e \<notin> set topic_labels" and "Key e \<noteq> ''d''"
  shows "log_inv (es @ [e]) s"
  using assms
  by (auto simp: log_inv_def topic_entries_snoc data_entries_snoc filled_slots_snoc)

lemma log_step_sound:
  assumes dec: "decodable es" and inv: "log_inv es s"
  shows "case log_step s e of
           None \<Rightarrow> \<not> decodable (es @ [e])
         | Some s' \<Rightarrow> decodable (es @ [e]) \<and> log_inv (es @ [e]) s'"
proof (cases "Codec e = cid_Raw")
  case False
  then show ?thesis by (simp add: log_step_def decodable_snoc)
next
  case raw: True
  show ?thesis
  proof (cases "Key e \<in> set topic_labels")
    case topic: True
    have found: "topicsFound s ! label_slot (Key e) = (label_slot (Key e) \<in> filled_slots es)"
      using inv label_slot_lt [of "Key e"] by (simp add: log_inv_def)
    show ?thesis
    proof (cases "length (Val e) = 32 \<and> label_slot (Key e) \<notin> filled_slots es")
      case True
      with log_inv_topic [OF inv topic] dec raw topic found d_not_topic show ?thesis
        by (auto simp: log_step_topic decodable_snoc)
    next
      case False
      with raw topic found show ?thesis
        by (auto simp: log_step_topic decodable_snoc)
    qed
  next
    case nt: False
    show ?thesis
    proof (cases "Key e = ''d''")
      case True
      have "dataFound s = (data_entries es \<noteq> [])" using inv by (simp add: log_inv_def)
      with True raw nt dec log_inv_data [OF inv True] show ?thesis
        by (auto simp: log_step_data decodable_snoc)
    next
      case False
      with raw nt dec log_inv_other [OF inv nt False] show ?thesis
        by (auto simp: log_step_other decodable_snoc)
    qed
  qed
qed

lemma log_loop_sound:
  "case log_loop log_init es of
     None \<Rightarrow> \<not> decodable es
   | Some s \<Rightarrow> decodable es \<and> log_inv es s"
proof (induction es rule: rev_induct)
  case Nil
  show ?case by (simp add: decodable_Nil log_inv_init)
next
  case (snoc e es)
  show ?case
  proof (cases "log_loop log_init es")
    case None
    with snoc show ?thesis by (simp add: log_loop_snoc decodable_snoc)
  next
    case (Some s)
    with snoc have "decodable es" "log_inv es s" by simp_all
    from log_step_sound [OF this, of e] Some show ?thesis
      by (simp add: log_loop_snoc)
  qed
qed

lemma prefix_length_iff:
  assumes char: "\<forall>i. i < n \<longleftrightarrow> (\<exists>j\<in>F. i \<le> j)" and fin: "finite F"
  shows "n = card F \<longleftrightarrow> F = {..<card F}"
proof
  assume n: "n = card F"
  have "F \<subseteq> {..<n}" using char by auto
  moreover have "card {..<n} = card F" using n by simp
  ultimately have "F = {..<n}" by (metis card_subset_eq finite_lessThan)
  then show "F = {..<card F}" using n by simp
next
  assume F: "F = {..<card F}"
  have "\<forall>i. i < n \<longleftrightarrow> i < card F"
  proof
    fix i
    have "(\<exists>j\<in>F. i \<le> j) \<longleftrightarrow> (\<exists>j<card F. i \<le> j)"
      by (subst F) auto
    also have "\<dots> \<longleftrightarrow> i < card F" by auto
    finally show "i < n \<longleftrightarrow> i < card F" using char by simp
  qed
  then show "n = card F" by (metis linorder_neqE_nat less_irrefl)
qed

lemma decodable_count: "decodable es \<Longrightarrow> length (topic_entries es) = card (filled_slots es)"
  using distinct_card [of "map (label_slot \<circ> Key) (topic_entries es)"]
  by (simp add: decodable_def has_duplicate_slot_def filled_slots_def)

lemma log_inv_gap:
  assumes "decodable es" and "log_inv es s"
  shows "int (length (topics s)) \<noteq> topicsFoundCount s \<longleftrightarrow> has_gap es"
proof -
  have char: "\<forall>i. i < length (topics s) \<longleftrightarrow> (\<exists>j\<in>filled_slots es. i \<le> j)"
    using assms(2) by (simp add: log_inv_def)
  have "finite (filled_slots es)" by (simp add: filled_slots_def)
  from prefix_length_iff [OF char this]
  have "length (topics s) = card (filled_slots es) \<longleftrightarrow> \<not> has_gap es"
    by (simp add: has_gap_def)
  moreover have "topicsFoundCount s = int (card (filled_slots es))"
    using assms by (simp add: log_inv_def decodable_count)
  ultimately show ?thesis by simp
qed

lemma ethLogFromEvent_None_iff:
  "ethLogFromEvent es = None \<longleftrightarrow> \<not> decodable es \<or> has_gap es"
proof (cases "log_loop log_init es")
  case None
  with log_loop_sound [of es] show ?thesis by (simp add: ethLogFromEvent_def)
next
  case (Some s)
  with log_loop_sound [of es] have "decodable es" "log_inv es s" by simp_all
  from log_inv_gap [OF this] this(1) Some show ?thesis
    by (simp add: ethLogFromEvent_def)
qed

lemma label_of_slot:
  "k \<in> set topic_labels \<Longrightarrow> topic_labels ! label_slot k = k"
  by (auto simp: topic_labels_def label_slot_def)

lemma ethLogFromEvent_Some:
  assumes ok: "ethLogFromEvent es = Some (d, ts)"
  shows "length ts = length (topic_entries es) \<and>
         (\<forall>i<length ts. length (ts ! i) = 32 \<and>
            (\<exists>e\<in>set es. Key e = topic_labels ! i \<and> ts ! i = Val e))"
proof -
  from ok obtain s where s: "log_loop log_init es = Some s"
    and eq: "int (length (topics s)) = topicsFoundCount s" and ts: "ts = topics s"
    by (auto simp: ethLogFromEvent_def split: option.splits if_splits)
  with log_loop_sound [of es] have dec: "decodable es" and inv: "log_inv es s" by simp_all
  have len: "length ts = length (topic_entries es)"
    using inv eq ts by (simp add: log_inv_def)
  have "\<not> has_gap es" using log_inv_gap [OF dec inv] eq by simp
  then have full: "filled_slots es = {..<length ts}"
    using len dec by (simp add: has_gap_def decodable_count)
  have "length (ts ! i) = 32 \<and> (\<exists>e\<in>set es. Key e = topic_labels ! i \<and> ts ! i = Val e)"
    if i: "i < length ts" for i
  proof
    show "length (ts ! i) = 32" using inv i ts by (simp add: log_inv_def)
    from i full have "i \<in> filled_slots es" by simp
    then obtain e where e: "e \<in> set (topic_entries es)" and slot: "label_slot (Key e) = i"
      by (auto simp: filled_slots_def)
    from e have k: "Key e \<in> set topic_labels" and mem: "e \<in> set es"
      by (simp_all add: topic_entries_def)
    from label_of_slot [OF k] slot have "Key e = topic_labels ! i" by simp
    moreover from inv e slot ts have "ts ! i = Val e" by (auto simp: log_inv_def)
    ultimately show "\<exists>e\<in>set es. Key e = topic_labels ! i \<and> ts ! i = Val e"
      using mem by blast
  qed
  with len show ?thesis by blast
qed

lemma log_loop_skip_other:
  "log_loop s (filter (\<lambda>e. \<not> (other_label e \<and> Codec e = cid_Raw)) es) = log_loop s es"
proof (induction es arbitrary: s)
  case Nil
  show ?case by simp
next
  case (Cons e es)
  show ?case
  proof (cases "other_label e \<and> Codec e = cid_Raw")
    case True
    then have "log_step s e = Some s" by (simp add: other_label_def log_step_other)
    with True Cons show ?thesis by simp
  next
    case False
    with Cons show ?thesis by (simp split: option.splits)
  qed
qed

text \<open>C1. \<^verbatim>\<open>ethLogFromEvent\<close> returns \<^verbatim>\<open>ok = false\<close> exactly when the entry list
  holds an entry whose codec is not raw, a topic entry labelled \<open>t1\<close>..\<open>t4\<close> whose value
  is not 32 bytes long, two topic entries claiming one slot, a second \<open>d\<close> entry, or
  topic entries whose filled slots are not a prefix starting at slot 0. Raw entries with
  any other label are skipped: removing them changes nothing. Whenever \<^verbatim>\<open>ok = true\<close>,
  the topics list has as many elements as there are topic entries, and topic \<open>i\<close> is
  the 32-byte value of the entry labelled \<open>t(i+1)\<close>.\<close>

theorem ethLogFromEvent_decoding:
  "(ethLogFromEvent es = None \<longleftrightarrow>
      has_nonraw es \<or> has_missized_topic es \<or> has_duplicate_slot es \<or>
      has_second_data es \<or> has_gap es) \<and>
   ethLogFromEvent (filter (\<lambda>e. \<not> (other_label e \<and> Codec e = cid_Raw)) es) =
     ethLogFromEvent es \<and>
   (\<forall>d ts. ethLogFromEvent es = Some (d, ts) \<longrightarrow>
      length ts = length (topic_entries es) \<and>
      (\<forall>i<length ts. length (ts ! i) = 32 \<and>
         (\<exists>e\<in>set es. Key e = topic_labels ! i \<and> ts ! i = Val e)))"
proof (intro conjI allI impI)
  show "ethLogFromEvent es = None \<longleftrightarrow>
      has_nonraw es \<or> has_missized_topic es \<or> has_duplicate_slot es \<or>
      has_second_data es \<or> has_gap es"
    by (auto simp: ethLogFromEvent_None_iff decodable_def)
  show "ethLogFromEvent (filter (\<lambda>e. \<not> (other_label e \<and> Codec e = cid_Raw)) es) =
     ethLogFromEvent es"
    by (simp only: ethLogFromEvent_def log_loop_skip_other)
  fix d ts assume ok: "ethLogFromEvent es = Some (d, ts)"
  from ethLogFromEvent_Some [OF ok]
  show "length ts = length (topic_entries es)" by simp
  fix i assume "i < length ts"
  with ethLogFromEvent_Some [OF ok]
  show "length (ts ! i) = 32" 
    and "\<exists>e\<in>set es. Key e = topic_labels ! i \<and> ts ! i = Val e" by simp_all
qed

theorem ethLogFromEvent_decoding_witness:
  "has_gap [\<lparr>Key = ''t2'', Codec = 0x55, Val = replicate 32 2\<rparr>] \<and>
   ethLogFromEvent [\<lparr>Key = ''t2'', Codec = 0x55, Val = replicate 32 2\<rparr>] = None \<and>
   ethLogFromEvent
     [\<lparr>Key = ''t1'', Codec = 0x55, Val = replicate 32 1\<rparr>,
      \<lparr>Key = ''x'', Codec = 0x55, Val = [7]\<rparr>,
      \<lparr>Key = ''d'', Codec = 0x55, Val = [9, 9]\<rparr>,
      \<lparr>Key = ''t2'', Codec = 0x55, Val = replicate 32 2\<rparr>]
     = Some ([9, 9], [replicate 32 1, replicate 32 2]) \<and>
   length [replicate 32 (1 :: byte), replicate 32 2] =
     length (topic_entries
       [\<lparr>Key = ''t1'', Codec = 0x55, Val = replicate 32 1\<rparr>,
        \<lparr>Key = ''x'', Codec = 0x55, Val = [7]\<rparr>,
        \<lparr>Key = ''d'', Codec = 0x55, Val = [9, 9]\<rparr>,
        \<lparr>Key = ''t2'', Codec = 0x55, Val = replicate 32 2\<rparr>])"
proof -
  let ?bad = "[\<lparr>Key = ''t2'', Codec = 0x55, Val = replicate 32 2\<rparr>]"
  let ?good = "[\<lparr>Key = ''t1'', Codec = 0x55, Val = replicate 32 1\<rparr>,
      \<lparr>Key = ''x'', Codec = 0x55, Val = [7]\<rparr>,
      \<lparr>Key = ''d'', Codec = 0x55, Val = [9, 9]\<rparr>,
      \<lparr>Key = ''t2'', Codec = 0x55, Val = replicate 32 2\<rparr>]"
  have gap: "has_gap ?bad" by code_simp
  have ok: "ethLogFromEvent ?good = Some ([9, 9], [replicate 32 1, replicate 32 2])"
    by code_simp
  from ethLogFromEvent_decoding [of ?bad] gap
  have none: "ethLogFromEvent ?bad = None" by blast
  from ethLogFromEvent_decoding [of ?good] ok
  have "length [replicate 32 (1 :: byte), replicate 32 2] = length (topic_entries ?good)"
    by blast
  with gap none ok show ?thesis by blast
qed


section \<open>Undecodable events are dropped\<close>

lemma logs_loop_drop:
  "logs_loop env logs (filter decodes evs) = logs_loop env logs evs"
proof (induction evs arbitrary: logs)
  case Nil
  show ?case by simp
next
  case (Cons ev evs)
  show ?case
  proof (cases "decodes ev")
    case True
    with Cons show ?thesis
      by (simp split: option.splits sum.splits prod.splits)
  next
    case False
    then have "ethLogFromEvent (Entries ev) = None"
      by (cases "ethLogFromEvent (Entries ev)") (auto simp: decodes_def)
    with False Cons show ?thesis by simp
  qed
qed

lemma logs_loop_items:
  assumes "logs_loop env logs evs = Inr out"
  shows "\<exists>new. out = logs @ new \<and>
           (\<forall>l\<in>set new. \<exists>ev\<in>set evs.
              ethLogFromEvent (Entries ev) = Some (Data l, Topics l) \<and>
              Removed l = Reverted ev \<and> LogIndex l = EventIdx ev \<and>
              TransactionIndex l = MsgIdx ev \<and> BlockNumber l = Height ev)"
  using assms
proof (induction evs arbitrary: logs)
  case Nil
  then show ?case by simp
next
  case (Cons ev evs)
  show ?case
  proof (cases "ethLogFromEvent (Entries ev)")
    case None
    with Cons.prems have "logs_loop env logs evs = Inr out" by simp
    from Cons.IH [OF this] show ?thesis by auto
  next
    case (Some p)
    obtain d ts where p: "p = (d, ts)" by (cases p)
    from Cons.prems Some p consider
        (skip) "logs_loop env logs evs = Inr out"
      | (add) addr txh bh where
          "logs_loop env
             (logs @ [\<lparr> LogAddress = addr, Data = d, Topics = ts, Removed = Reverted ev,
                        LogIndex = EventIdx ev, TransactionIndex = MsgIdx ev,
                        TransactionHash = txh, BlockHash = bh, BlockNumber = Height ev \<rparr>])
             evs = Inr out"
      by (auto split: sum.splits if_splits)
    then show ?thesis
    proof cases
      case skip
      from Cons.IH [OF this] show ?thesis by auto
    next
      case add
      from Cons.IH [OF this] obtain new where
        out: "out = (logs @ [\<lparr> LogAddress = addr, Data = d, Topics = ts, Removed = Reverted ev,
                        LogIndex = EventIdx ev, TransactionIndex = MsgIdx ev,
                        TransactionHash = txh, BlockHash = bh, BlockNumber = Height ev \<rparr>]) @ new"
        and new: "\<forall>l\<in>set new. \<exists>ev\<in>set evs.
              ethLogFromEvent (Entries ev) = Some (Data l, Topics l) \<and>
              Removed l = Reverted ev \<and> LogIndex l = EventIdx ev \<and>
              TransactionIndex l = MsgIdx ev \<and> BlockNumber l = Height ev"
        by blast
      let ?l = "\<lparr> LogAddress = addr, Data = d, Topics = ts, Removed = Reverted ev,
                        LogIndex = EventIdx ev, TransactionIndex = MsgIdx ev,
                        TransactionHash = txh, BlockHash = bh, BlockNumber = Height ev \<rparr>"
      have "out = logs @ (?l # new)" using out by simp
      moreover have "\<forall>l\<in>set (?l # new). \<exists>ev'\<in>set (ev # evs).
              ethLogFromEvent (Entries ev') = Some (Data l, Topics l) \<and>
              Removed l = Reverted ev' \<and> LogIndex l = EventIdx ev' \<and>
              TransactionIndex l = MsgIdx ev' \<and> BlockNumber l = Height ev'"
        using new Some p by auto
      ultimately show ?thesis by blast
    qed
  qed
qed

text \<open>C7. An event whose entries fail the log decode is omitted from the result of
  \<^verbatim>\<open>ethFilterLogsFromEvents\<close> and \<^verbatim>\<open>ethFilterResultFromEvents\<close>: both return exactly
  what they return on the list without the undecodable events (so such an event causes
  no error), and every returned log carries the decoded data and topics of an event of
  the input that decodes.\<close>

theorem undecodable_events_dropped:
  "ethFilterLogsFromEvents env evs = ethFilterLogsFromEvents env (filter decodes evs) \<and>
   ethFilterResultFromEvents env evs = ethFilterResultFromEvents env (filter decodes evs) \<and>
   (\<forall>logs. ethFilterLogsFromEvents env evs = Inr logs \<longrightarrow>
      (\<forall>l\<in>set logs. \<exists>ev\<in>set evs. decodes ev \<and>
         ethLogFromEvent (Entries ev) = Some (Data l, Topics l) \<and>
         Removed l = Reverted ev \<and> LogIndex l = EventIdx ev \<and>
         TransactionIndex l = MsgIdx ev \<and> BlockNumber l = Height ev)) \<and>
   (\<forall>res. ethFilterResultFromEvents env evs = Inr res \<longrightarrow>
      (\<forall>r\<in>set (Results res). \<exists>l. \<exists>ev\<in>set evs. r = LogItem l \<and> decodes ev \<and>
         ethLogFromEvent (Entries ev) = Some (Data l, Topics l)))"
proof -
  have a: "ethFilterLogsFromEvents env evs = ethFilterLogsFromEvents env (filter decodes evs)"
    by (simp add: ethFilterLogsFromEvents_def logs_loop_drop)
  then have b: "ethFilterResultFromEvents env evs =
      ethFilterResultFromEvents env (filter decodes evs)"
    by (simp add: ethFilterResultFromEvents_def)
  have c: "\<forall>l\<in>set logs. \<exists>ev\<in>set evs. decodes ev \<and>
         ethLogFromEvent (Entries ev) = Some (Data l, Topics l) \<and>
         Removed l = Reverted ev \<and> LogIndex l = EventIdx ev \<and>
         TransactionIndex l = MsgIdx ev \<and> BlockNumber l = Height ev"
    if "ethFilterLogsFromEvents env evs = Inr logs" for logs
    using logs_loop_items [of env "[]" evs logs] that
    by (fastforce simp: ethFilterLogsFromEvents_def decodes_def)
  have d: "\<forall>r\<in>set (Results res). \<exists>l. \<exists>ev\<in>set evs. r = LogItem l \<and> decodes ev \<and>
         ethLogFromEvent (Entries ev) = Some (Data l, Topics l)"
    if res: "ethFilterResultFromEvents env evs = Inr res" for res
  proof -
    from res obtain logs where logs: "ethFilterLogsFromEvents env evs = Inr logs"
      and r: "Results res = map LogItem logs"
      by (auto simp: ethFilterResultFromEvents_def split: sum.splits)
    from c [OF logs] r show ?thesis by fastforce
  qed
  from a b c d show ?thesis by blast
qed

theorem undecodable_events_dropped_witness:
  "\<not> decodes \<lparr> Entries = [\<lparr>Key = ''t2'', Codec = 0x55, Val = replicate 32 2\<rparr>],
       EmitterAddr = [0], EventIdx = 0, Reverted = False, Height = 7, EvTipSetKey = [[1]],
       MsgIdx = 0, MsgCid = [3] \<rparr> \<and>
   ethFilterLogsFromEvents
     \<lparr> EthAddressFromFilecoinAddress = (\<lambda>a. if a = [0] then Inl (Errorf ''invalid'') else Inr a),
       ethTxHashFromMessageCid = (\<lambda>c. Inr (replicate 32 5)),
       TipSetKey_Cid = (\<lambda>k. Inr [1]),
       EthHashFromCid = (\<lambda>c. Inr (replicate 32 6)) \<rparr>
     [\<lparr> Entries = [\<lparr>Key = ''t2'', Codec = 0x55, Val = replicate 32 2\<rparr>],
       EmitterAddr = [0], EventIdx = 0, Reverted = False, Height = 7, EvTipSetKey = [[1]],
       MsgIdx = 0, MsgCid = [3] \<rparr>,
      \<lparr> Entries = [\<lparr>Key = ''t1'', Codec = 0x55, Val = replicate 32 1\<rparr>],
       EmitterAddr = [4], EventIdx = 1, Reverted = False, Height = 7, EvTipSetKey = [[1]],
       MsgIdx = 0, MsgCid = [3] \<rparr>]
   = Inr [\<lparr> LogAddress = [4], Data = [], Topics = [replicate 32 1], Removed = False,
            LogIndex = 1, TransactionIndex = 0, TransactionHash = replicate 32 5,
            BlockHash = replicate 32 6, BlockNumber = 7 \<rparr>]"
proof -
  let ?env = "\<lparr> EthAddressFromFilecoinAddress =
         (\<lambda>a. if a = [0] then Inl (Errorf ''invalid'') else Inr a),
       ethTxHashFromMessageCid = (\<lambda>c. Inr (replicate 32 5)),
       TipSetKey_Cid = (\<lambda>k. Inr [1]),
       EthHashFromCid = (\<lambda>c. Inr (replicate 32 6)) \<rparr>"
  let ?bad = "\<lparr> Entries = [\<lparr>Key = ''t2'', Codec = 0x55, Val = replicate 32 2\<rparr>],
       EmitterAddr = [0], EventIdx = 0, Reverted = False, Height = 7, EvTipSetKey = [[1]],
       MsgIdx = 0, MsgCid = [3] \<rparr>"
  let ?good = "\<lparr> Entries = [\<lparr>Key = ''t1'', Codec = 0x55, Val = replicate 32 1\<rparr>],
       EmitterAddr = [4], EventIdx = 1, Reverted = False, Height = 7, EvTipSetKey = [[1]],
       MsgIdx = 0, MsgCid = [3] \<rparr>"
  have bad: "\<not> decodes ?bad" by code_simp
  have keep: "filter decodes [?bad, ?good] = [?good]" by code_simp
  have run: "ethFilterLogsFromEvents ?env [?good] =
      Inr [\<lparr> LogAddress = [4], Data = [], Topics = [replicate 32 1], Removed = False,
            LogIndex = 1, TransactionIndex = 0, TransactionHash = replicate 32 5,
            BlockHash = replicate 32 6, BlockNumber = 7 \<rparr>]"
    by code_simp
  from undecodable_events_dropped [of ?env "[?bad, ?good]"]
  have "ethFilterLogsFromEvents ?env [?bad, ?good] =
      ethFilterLogsFromEvents ?env (filter decodes [?bad, ?good])"
    by (rule conjunct1)
  with keep run bad show ?thesis by (simp only: simp_thms)
qed


section \<open>Properties of the block-range parser\<close>



















section \<open>Properties of the wait for the event index\<close>

lemma wait_loop_rounds:
  assumes "\<forall>i<n. answers (k + i) = Inr False"
  shows "wait_loop answers height k (replicate n IndexUpdated @ rest) =
     (case wait_loop answers height (k + n) rest of
        (r, tr) \<Rightarrow> (r, rechecks n height @ tr))"
  using assms
proof (induction n arbitrary: k)
  case 0
  show ?case by (simp add: rechecks_def split: prod.splits)
next
  case (Suc n)
  from Suc.prems have k: "answers k = Inr False" by (metis add.right_neutral zero_less_Suc)
  from Suc.prems have "\<forall>i<n. answers (Suc k + i) = Inr False" by auto
  from Suc.IH [OF this] k show ?case
    by (simp add: rechecks_def split: prod.splits)
qed

lemma wait_started:
  assumes "\<not> head_height env <s height" and "past env 0 = Inr False"
    and "past env 1 = Inr False"
  shows "waitForHeightProcessed env height =
     (case wait_loop (past env) height 2 (events env) of
        (r, tr) \<Rightarrow>
          (r, [GetHead, WithTimeout 90, IsHeightPast height, SubscribeUpdates,
               IsHeightPast height] @ tr @
              (if r = Blocked then [] else [UnsubscribeUpdates, CancelTimeout])))"
  using assms by (simp add: waitForHeightProcessed_def eventReadTimeout_def)

lemma wait_in_loop:
  assumes head: "\<not> head_height env <s height"
    and no: "\<forall>i<n + 2. past env i = Inr False"
    and evs: "events env = replicate n IndexUpdated @ rest"
  shows "waitForHeightProcessed env height =
     (case wait_loop (past env) height (n + 2) rest of
        (r, tr) \<Rightarrow>
          (r, [GetHead, WithTimeout 90, IsHeightPast height, SubscribeUpdates,
               IsHeightPast height] @ rechecks n height @ tr @
              (if r = Blocked then [] else [UnsubscribeUpdates, CancelTimeout])))"
proof -
  from no have p0: "past env 0 = Inr False" and p1: "past env 1 = Inr False" by simp_all
  from no have "\<forall>i<n. past env (2 + i) = Inr False" by simp
  from wait_loop_rounds [OF this, of height rest]
  have "wait_loop (past env) height 2 (events env) =
     (case wait_loop (past env) height (n + 2) rest of
        (r, tr) \<Rightarrow> (r, rechecks n height @ tr))"
    by (simp add: evs add.commute)
  with wait_started [OF head p0 p1] show ?thesis
    by (simp split: prod.splits)
qed

text \<open>C3. \<^verbatim>\<open>waitForHeightProcessed\<close> returns an error after reading the head only, without
  a call to the index, when the height exceeds the head height. When the first
  \<^verbatim>\<open>IsHeightPast\<close> reports true it returns nil and never subscribes. When it reports
  false, the subscription to the index updates comes before the second \<^verbatim>\<open>IsHeightPast\<close>;
  if that second check reports true (the index advanced in between), nil is returned
  without any \<^verbatim>\<open>select\<close>, whatever the events. Otherwise the loop rechecks once per
  notification: after \<open>n\<close> notifications whose rechecks report false, the call is still
  blocked if nothing else arrives, returns the error of the context when the context
  ends (the deadline of the 90-second timeout, or the cancellation), and returns nil at
  the next notification whose recheck reports true.\<close>

theorem waitForHeightProcessed_protocol:
  "(head_height env <s height \<longrightarrow>
      waitForHeightProcessed env height = (Returned (Some err_future), [GetHead])) \<and>
   (\<not> head_height env <s height \<and> past env 0 = Inr True \<longrightarrow>
      waitForHeightProcessed env height =
        (Returned None, [GetHead, WithTimeout 90, IsHeightPast height, CancelTimeout])) \<and>
   (\<not> head_height env <s height \<and> past env 0 = Inr False \<longrightarrow>
      take 5 (snd (waitForHeightProcessed env height)) =
        [GetHead, WithTimeout 90, IsHeightPast height, SubscribeUpdates,
         IsHeightPast height]) \<and>
   (\<not> head_height env <s height \<and> past env 0 = Inr False \<and> past env 1 = Inr True \<longrightarrow>
      waitForHeightProcessed env height =
        (Returned None,
         [GetHead, WithTimeout 90, IsHeightPast height, SubscribeUpdates,
          IsHeightPast height, UnsubscribeUpdates, CancelTimeout])) \<and>
   (\<forall>n rest. \<not> head_height env <s height \<and> (\<forall>i<n + 2. past env i = Inr False) \<and>
        events env = replicate n IndexUpdated @ rest \<longrightarrow>
      (rest = [] \<longrightarrow>
         waitForHeightProcessed env height =
           (Blocked,
            [GetHead, WithTimeout 90, IsHeightPast height, SubscribeUpdates,
             IsHeightPast height] @ rechecks n height @ [Select])) \<and>
      (\<forall>err rest'. rest = CtxDone err # rest' \<longrightarrow>
         waitForHeightProcessed env height =
           (Returned (Some err),
            [GetHead, WithTimeout 90, IsHeightPast height, SubscribeUpdates,
             IsHeightPast height] @ rechecks n height @
            [Select, UnsubscribeUpdates, CancelTimeout])) \<and>
      (\<forall>rest'. rest = IndexUpdated # rest' \<and> past env (n + 2) = Inr True \<longrightarrow>
         waitForHeightProcessed env height =
           (Returned None,
            [GetHead, WithTimeout 90, IsHeightPast height, SubscribeUpdates,
             IsHeightPast height] @ rechecks n height @
            [Select, IsHeightPast height, UnsubscribeUpdates, CancelTimeout])))"
proof (intro conjI allI impI)
  show "waitForHeightProcessed env height = (Returned (Some err_future), [GetHead])"
    if "head_height env <s height"
    using that by (simp add: waitForHeightProcessed_def)
  show "waitForHeightProcessed env height =
        (Returned None, [GetHead, WithTimeout 90, IsHeightPast height, CancelTimeout])"
    if "\<not> head_height env <s height \<and> past env 0 = Inr True"
    using that by (simp add: waitForHeightProcessed_def eventReadTimeout_def)
  show "take 5 (snd (waitForHeightProcessed env height)) =
        [GetHead, WithTimeout 90, IsHeightPast height, SubscribeUpdates,
         IsHeightPast height]"
    if "\<not> head_height env <s height \<and> past env 0 = Inr False"
    using that
    by (simp add: waitForHeightProcessed_def eventReadTimeout_def
          split: sum.splits prod.splits)
  show "waitForHeightProcessed env height =
        (Returned None,
         [GetHead, WithTimeout 90, IsHeightPast height, SubscribeUpdates,
          IsHeightPast height, UnsubscribeUpdates, CancelTimeout])"
    if "\<not> head_height env <s height \<and> past env 0 = Inr False \<and> past env 1 = Inr True"
    using that by (simp add: waitForHeightProcessed_def eventReadTimeout_def)
next
  fix n rest
  assume h: "\<not> head_height env <s height \<and> (\<forall>i<n + 2. past env i = Inr False) \<and>
        events env = replicate n IndexUpdated @ rest"
  then have loop: "waitForHeightProcessed env height =
     (case wait_loop (past env) height (n + 2) rest of
        (r, tr) \<Rightarrow>
          (r, [GetHead, WithTimeout 90, IsHeightPast height, SubscribeUpdates,
               IsHeightPast height] @ rechecks n height @ tr @
              (if r = Blocked then [] else [UnsubscribeUpdates, CancelTimeout])))"
    using wait_in_loop by blast
  show "waitForHeightProcessed env height =
           (Blocked,
            [GetHead, WithTimeout 90, IsHeightPast height, SubscribeUpdates,
             IsHeightPast height] @ rechecks n height @ [Select])"
    if "rest = []"
    using that loop by simp
  show "waitForHeightProcessed env height =
           (Returned (Some err),
            [GetHead, WithTimeout 90, IsHeightPast height, SubscribeUpdates,
             IsHeightPast height] @ rechecks n height @
            [Select, UnsubscribeUpdates, CancelTimeout])"
    if "rest = CtxDone err # rest'" for err rest'
    using that loop by simp
  show "waitForHeightProcessed env height =
           (Returned None,
            [GetHead, WithTimeout 90, IsHeightPast height, SubscribeUpdates,
             IsHeightPast height] @ rechecks n height @
            [Select, IsHeightPast height, UnsubscribeUpdates, CancelTimeout])"
    if "rest = IndexUpdated # rest' \<and> past env (n + 2) = Inr True" for rest'
    using that loop by simp
qed

theorem waitForHeightProcessed_protocol_witness:
  "waitForHeightProcessed
     \<lparr> head_height = 10, past = (\<lambda>k. Inr False), events = [] \<rparr> 11 =
     (Returned (Some err_future), [GetHead]) \<and>
   waitForHeightProcessed
     \<lparr> head_height = 10, past = (\<lambda>k. Inr True), events = [] \<rparr> 5 =
     (Returned None, [GetHead, WithTimeout 90, IsHeightPast 5, CancelTimeout]) \<and>
   waitForHeightProcessed
     \<lparr> head_height = 10, past = (\<lambda>k. if k = 0 then Inr False else Inr True),
       events = [] \<rparr> 5 =
     (Returned None,
      [GetHead, WithTimeout 90, IsHeightPast 5, SubscribeUpdates, IsHeightPast 5,
       UnsubscribeUpdates, CancelTimeout]) \<and>
   waitForHeightProcessed
     \<lparr> head_height = 10, past = (\<lambda>k. Inr False),
       events = [IndexUpdated, CtxDone DeadlineExceeded] \<rparr> 5 =
     (Returned (Some DeadlineExceeded),
      [GetHead, WithTimeout 90, IsHeightPast 5, SubscribeUpdates, IsHeightPast 5,
       Select, IsHeightPast 5, Select, UnsubscribeUpdates, CancelTimeout]) \<and>
   waitForHeightProcessed
     \<lparr> head_height = 10, past = (\<lambda>k. if k < 3 then Inr False else Inr True),
       events = [IndexUpdated, IndexUpdated, CtxDone Canceled] \<rparr> 5 =
     (Returned None,
      [GetHead, WithTimeout 90, IsHeightPast 5, SubscribeUpdates, IsHeightPast 5,
       Select, IsHeightPast 5, Select, IsHeightPast 5, UnsubscribeUpdates,
       CancelTimeout])"
proof -
  let ?future = "\<lparr> head_height = 10, past = (\<lambda>k. Inr False), events = [] \<rparr>"
  let ?done = "\<lparr> head_height = 10, past = (\<lambda>k. Inr True), events = [] \<rparr>"
  let ?race = "\<lparr> head_height = 10, past = (\<lambda>k. if k = 0 then Inr False else Inr True),
       events = [] \<rparr>"
  let ?late = "\<lparr> head_height = 10, past = (\<lambda>k. Inr False),
       events = [IndexUpdated, CtxDone DeadlineExceeded] \<rparr>"
  let ?woken = "\<lparr> head_height = 10, past = (\<lambda>k. if k < 3 then Inr False else Inr True),
       events = [IndexUpdated, IndexUpdated, CtxDone Canceled] \<rparr>"
  have "head_height ?future <s (11 :: 64 word)" by (simp add: word_sless_alt)
  with waitForHeightProcessed_protocol [of ?future 11]
  have a: "waitForHeightProcessed ?future 11 = (Returned (Some err_future), [GetHead])"
    by blast
  have "\<not> head_height ?done <s (5 :: 64 word) \<and> past ?done 0 = Inr True"
    by (simp add: word_sless_alt)
  with waitForHeightProcessed_protocol [of ?done 5]
  have b: "waitForHeightProcessed ?done 5 =
      (Returned None, [GetHead, WithTimeout 90, IsHeightPast 5, CancelTimeout])"
    by blast
  have "\<not> head_height ?race <s (5 :: 64 word) \<and> past ?race 0 = Inr False \<and>
      past ?race 1 = Inr True"
    by (simp add: word_sless_alt)
  with waitForHeightProcessed_protocol [of ?race 5]
  have c: "waitForHeightProcessed ?race 5 =
      (Returned None,
       [GetHead, WithTimeout 90, IsHeightPast 5, SubscribeUpdates, IsHeightPast 5,
        UnsubscribeUpdates, CancelTimeout])"
    by blast
  have "\<not> head_height ?late <s (5 :: 64 word) \<and> (\<forall>i<1 + 2. past ?late i = Inr False) \<and>
      events ?late = replicate 1 IndexUpdated @ CtxDone DeadlineExceeded # []"
    by (simp add: word_sless_alt)
  with waitForHeightProcessed_protocol [of ?late 5]
  have "waitForHeightProcessed ?late 5 =
      (Returned (Some DeadlineExceeded),
       [GetHead, WithTimeout 90, IsHeightPast 5, SubscribeUpdates, IsHeightPast 5] @
       rechecks 1 5 @ [Select, UnsubscribeUpdates, CancelTimeout])"
    by blast
  then have d: "waitForHeightProcessed ?late 5 =
      (Returned (Some DeadlineExceeded),
       [GetHead, WithTimeout 90, IsHeightPast 5, SubscribeUpdates, IsHeightPast 5,
        Select, IsHeightPast 5, Select, UnsubscribeUpdates, CancelTimeout])"
    by (simp add: rechecks_def)
  have "\<not> head_height ?woken <s (5 :: 64 word) \<and> (\<forall>i<1 + 2. past ?woken i = Inr False) \<and>
      events ?woken = replicate 1 IndexUpdated @ IndexUpdated # [CtxDone Canceled] \<and>
      past ?woken (1 + 2) = Inr True"
    by (simp add: word_sless_alt)
  with waitForHeightProcessed_protocol [of ?woken 5]
  have "waitForHeightProcessed ?woken 5 =
      (Returned None,
       [GetHead, WithTimeout 90, IsHeightPast 5, SubscribeUpdates, IsHeightPast 5] @
       rechecks 1 5 @ [Select, IsHeightPast 5, UnsubscribeUpdates, CancelTimeout])"
    by blast
  then have e: "waitForHeightProcessed ?woken 5 =
      (Returned None,
       [GetHead, WithTimeout 90, IsHeightPast 5, SubscribeUpdates, IsHeightPast 5,
        Select, IsHeightPast 5, Select, IsHeightPast 5, UnsubscribeUpdates,
        CancelTimeout])"
    by (simp add: rechecks_def)
  from a b c d e show ?thesis by blast
qed


section \<open>Installing and uninstalling filters\<close>

lemma installEthFilterSpec_result:
  assumes "installEthFilterSpec env e filterSpec = Inr (f, e1)"
  shows "\<exists>i. f = EventFilter i \<and> e1 = e\<lparr> EventFilterManager := insert i (EventFilterManager e) \<rparr>"
  using assms
  by (auto simp: installEthFilterSpec_def manager_Install_def
      split: option.splits sum.splits if_splits prod.splits)

lemma EthNewFilter_success:
  assumes "EthNewFilter env api filterSpec = (Inr i, api')"
  shows "\<exists>e. api = Some e \<and> i \<notin> dom (store_filters (FilterStore e)) \<and>
           api' = Some (e\<lparr> EventFilterManager := insert i (EventFilterManager e),
                            FilterStore := (FilterStore e)
                              \<lparr> store_filters :=
                                  (store_filters (FilterStore e))(i \<mapsto> EventFilter i) \<rparr> \<rparr>)"
proof -
  from assms obtain e where api: "api = Some e"
    by (cases api) (auto simp: EthNewFilter_def)
  from assms api obtain f e1 where inst: "installEthFilterSpec env e filterSpec = Inr (f, e1)"
    by (cases "installEthFilterSpec env e filterSpec") (auto simp: EthNewFilter_def)
  from installEthFilterSpec_result [OF inst] obtain j where
    f: "f = EventFilter j" and
    e1: "e1 = e\<lparr> EventFilterManager := insert j (EventFilterManager e) \<rparr>"
    by blast
  from assms api inst f e1 show ?thesis
    by (auto simp: EthNewFilter_def store_Add_def split: sum.splits if_splits)
qed

lemma EthUninstallFilter_installed:
  assumes "store_filters (FilterStore e) i = Some (EventFilter i)"
  shows "EthUninstallFilter (Some e) i =
     ((True, None),
      Some (e\<lparr> EventFilterManager := EventFilterManager e - {i},
               FilterStore := (FilterStore e)
                 \<lparr> store_filters := (store_filters (FilterStore e))(i := None) \<rparr> \<rparr>))"
  using assms
  by (simp add: EthUninstallFilter_def store_Get_def uninstallFilter_def remove_tolerant_def
      manager_Remove_def store_Remove_def)

text \<open>C8. When \<^verbatim>\<open>EthNewFilter\<close> succeeds, \<^verbatim>\<open>EthUninstallFilter\<close> of the identifier it
  returned reports true, and afterwards the filter store is the store from before the
  install (so its size, the number of registered filters, is the same) and the filter is
  registered neither in the event filter manager nor in the store.\<close>

theorem install_uninstall_roundtrip:
  assumes "EthNewFilter env api filterSpec = (Inr i, api')"
  shows "\<exists>e e''. api = Some e \<and>
           EthUninstallFilter api' i = ((True, None), Some e'') \<and>
           FilterStore e'' = FilterStore e \<and>
           store_size (FilterStore e'') = store_size (FilterStore e) \<and>
           i \<notin> EventFilterManager e'' \<and>
           i \<notin> dom (store_filters (FilterStore e''))"
proof -
  from EthNewFilter_success [OF assms] obtain e where api: "api = Some e"
    and fresh: "i \<notin> dom (store_filters (FilterStore e))"
    and api': "api' = Some (e\<lparr> EventFilterManager := insert i (EventFilterManager e),
                            FilterStore := (FilterStore e)
                              \<lparr> store_filters :=
                                  (store_filters (FilterStore e))(i \<mapsto> EventFilter i) \<rparr> \<rparr>)"
    by blast
  let ?e1 = "e\<lparr> EventFilterManager := insert i (EventFilterManager e),
                FilterStore := (FilterStore e)
                  \<lparr> store_filters := (store_filters (FilterStore e))(i \<mapsto> EventFilter i) \<rparr> \<rparr>"
  let ?e2 = "?e1\<lparr> EventFilterManager := EventFilterManager ?e1 - {i},
                  FilterStore := (FilterStore ?e1)
                    \<lparr> store_filters := (store_filters (FilterStore ?e1))(i := None) \<rparr> \<rparr>"
  have "store_filters (FilterStore ?e1) i = Some (EventFilter i)" by simp
  from EthUninstallFilter_installed [OF this] api'
  have un: "EthUninstallFilter api' i = ((True, None), Some ?e2)" by simp
  from fresh have "(store_filters (FilterStore e))(i := None) = store_filters (FilterStore e)"
    by (auto simp: fun_eq_iff)
  then have same: "FilterStore ?e2 = FilterStore e" by simp
  have "i \<notin> EventFilterManager ?e2" by simp
  moreover have "i \<notin> dom (store_filters (FilterStore ?e2))" by simp
  ultimately show ?thesis using api un same by (metis (no_types, lifting))
qed

theorem install_uninstall_roundtrip_witness:
  "\<exists>api'. EthNewFilter
      \<lparr> EthUint64FromHex = (\<lambda>s. if s = ''0x5'' then Inr 5 else Inr 10),
        ChainHead = Inr 100, ToCid = (\<lambda>h. h), ToFilecoinAddress = Inr,
        parseEthTopics = (\<lambda>t. Inr Map.empty), install_event = (\<lambda>a. Inr [1]),
        install_tipset = Inr [2], install_mempool = Inr [3], new_uuid = Inr [4],
        reverse_client = True \<rparr>
      (Some \<lparr> FilterStore = \<lparr> store_filters = Map.empty, store_max = 10 \<rparr>,
              EventFilterManager = {}, TipSetFilterManager = {}, MemPoolFilterManager = {},
              EventIndex = True, subs = Map.empty, heap = [], MaxFilterHeightRange = 50 \<rparr>)
      \<lparr> FromBlock = Some ''0x5'', ToBlock = Some ''0x0a'', SpecAddress = [],
        SpecTopics = [], SpecBlockHash = None \<rparr> = (Inr [1], api') \<and>
     (\<exists>e''. EthUninstallFilter api' [1] = ((True, None), Some e'') \<and>
        store_size (FilterStore e'') = 0 \<and> [1] \<notin> EventFilterManager e'')"
proof -
  let ?env = "\<lparr> EthUint64FromHex = (\<lambda>s. if s = ''0x5'' then Inr 5 else Inr 10),
        ChainHead = Inr 100, ToCid = (\<lambda>h. h), ToFilecoinAddress = Inr,
        parseEthTopics = (\<lambda>t. Inr Map.empty), install_event = (\<lambda>a. Inr [1]),
        install_tipset = Inr [2], install_mempool = Inr [3], new_uuid = Inr [4],
        reverse_client = True \<rparr>"
  let ?e = "\<lparr> FilterStore = \<lparr> store_filters = Map.empty, store_max = 10 \<rparr>,
              EventFilterManager = {}, TipSetFilterManager = {}, MemPoolFilterManager = {},
              EventIndex = True, subs = Map.empty, heap = [], MaxFilterHeightRange = 50 \<rparr>"
  let ?spec = "\<lparr> FromBlock = Some ''0x5'', ToBlock = Some ''0x0a'', SpecAddress = [],
        SpecTopics = [], SpecBlockHash = None \<rparr>"
  have range: "parseBlockRange (EthUint64FromHex ?env) 100 (Some ''0x5'') (Some ''0x0a'') 50 =
      Inr (5, 10)"
    by (simp add: parseBlockRange_def parseBlockRange_from_def parseBlockRange_to_def
          HasPrefix_def parseBlockRange_check_def word_sless_alt word_sle_eq)
  have "fst (EthNewFilter ?env (Some ?e) ?spec) = Inr [1]"
    using range
    by (simp add: EthNewFilter_def installEthFilterSpec_def manager_Install_def
          store_Add_def store_size_def)
  then obtain api' where new: "EthNewFilter ?env (Some ?e) ?spec = (Inr [1], api')"
    by (cases "EthNewFilter ?env (Some ?e) ?spec") simp
  have "store_size (FilterStore ?e) = 0" by (simp add: store_size_def)
  with install_uninstall_roundtrip [OF new] new show ?thesis
    by (metis option.inject)
qed


section \<open>Unknown identifiers\<close>

lemma EthUninstallFilter_absent:
  "i \<notin> dom (store_filters (FilterStore e)) \<Longrightarrow>
   EthUninstallFilter (Some e) i = ((False, None), Some e)"
  by (auto simp: EthUninstallFilter_def store_Get_def split: option.splits)

lemma StopSubscription_fails_iff:
  "fst (StopSubscription e i) \<noteq> None \<longleftrightarrow> subs e i = None"
  by (simp add: StopSubscription_def split: option.splits)

lemma EthUnsubscribe_result:
  "fst (EthUnsubscribe (Some e) i) =
     (if fst (StopSubscription e i) \<noteq> None then (False, None) else (True, None))"
  by (cases "StopSubscription e i") (auto simp: EthUnsubscribe_def split: option.splits)

text \<open>C10. With the API enabled: for an identifier that is not in the filter store,
  \<^verbatim>\<open>EthUninstallFilter\<close> returns \<^verbatim>\<open>(false, nil)\<close> and changes nothing; \<^verbatim>\<open>EthUnsubscribe\<close>
  returns \<^verbatim>\<open>(false, nil)\<close> whenever \<^verbatim>\<open>StopSubscription\<close> fails, which it does for an
  unknown subscription identifier, and \<^verbatim>\<open>(true, nil)\<close> otherwise.\<close>

theorem not_found_reported_by_boolean:
  "(i \<notin> dom (store_filters (FilterStore e)) \<longrightarrow>
      EthUninstallFilter (Some e) i = ((False, None), Some e)) \<and>
   (fst (StopSubscription e sid) \<noteq> None \<longrightarrow>
      fst (EthUnsubscribe (Some e) sid) = (False, None)) \<and>
   (subs e sid = None \<longrightarrow>
      fst (StopSubscription e sid) \<noteq> None \<and>
      EthUnsubscribe (Some e) sid = ((False, None), Some e)) \<and>
   (fst (StopSubscription e sid) = None \<longrightarrow>
      fst (EthUnsubscribe (Some e) sid) = (True, None))"
proof (intro conjI impI)
  show "EthUninstallFilter (Some e) i = ((False, None), Some e)"
    if "i \<notin> dom (store_filters (FilterStore e))"
    using that by (rule EthUninstallFilter_absent)
  show "fst (EthUnsubscribe (Some e) sid) = (False, None)"
    if "fst (StopSubscription e sid) \<noteq> None"
    using that by (simp add: EthUnsubscribe_result)
  show "fst (StopSubscription e sid) \<noteq> None" if "subs e sid = None"
    using that StopSubscription_fails_iff [of e sid] by blast
  show "EthUnsubscribe (Some e) sid = ((False, None), Some e)" if "subs e sid = None"
    using that by (simp add: EthUnsubscribe_def StopSubscription_def)
  show "fst (EthUnsubscribe (Some e) sid) = (True, None)"
    if "fst (StopSubscription e sid) = None"
    using that by (simp add: EthUnsubscribe_result)
qed

theorem not_found_reported_by_boolean_witness:
  "EthUninstallFilter
     (Some \<lparr> FilterStore = \<lparr> store_filters = Map.empty, store_max = 10 \<rparr>,
             EventFilterManager = {}, TipSetFilterManager = {}, MemPoolFilterManager = {},
             EventIndex = True,
             subs = [[7] \<mapsto> 0],
             heap = [\<lparr> sub_id = [7], filters = [], quit = True, ctx_cancelled = False,
                      sendQueueLen = 0, toSend = [], sendCond = False,
                      lastSentTipset = None \<rparr>],
             MaxFilterHeightRange = 50 \<rparr>) [9] =
     ((False, None),
      Some \<lparr> FilterStore = \<lparr> store_filters = Map.empty, store_max = 10 \<rparr>,
             EventFilterManager = {}, TipSetFilterManager = {}, MemPoolFilterManager = {},
             EventIndex = True,
             subs = [[7] \<mapsto> 0],
             heap = [\<lparr> sub_id = [7], filters = [], quit = True, ctx_cancelled = False,
                      sendQueueLen = 0, toSend = [], sendCond = False,
                      lastSentTipset = None \<rparr>],
             MaxFilterHeightRange = 50 \<rparr>) \<and>
   fst (EthUnsubscribe
     (Some \<lparr> FilterStore = \<lparr> store_filters = Map.empty, store_max = 10 \<rparr>,
             EventFilterManager = {}, TipSetFilterManager = {}, MemPoolFilterManager = {},
             EventIndex = True,
             subs = [[7] \<mapsto> 0],
             heap = [\<lparr> sub_id = [7], filters = [], quit = True, ctx_cancelled = False,
                      sendQueueLen = 0, toSend = [], sendCond = False,
                      lastSentTipset = None \<rparr>],
             MaxFilterHeightRange = 50 \<rparr>) [9]) = (False, None) \<and>
   fst (EthUnsubscribe
     (Some \<lparr> FilterStore = \<lparr> store_filters = Map.empty, store_max = 10 \<rparr>,
             EventFilterManager = {}, TipSetFilterManager = {}, MemPoolFilterManager = {},
             EventIndex = True,
             subs = [[7] \<mapsto> 0],
             heap = [\<lparr> sub_id = [7], filters = [], quit = True, ctx_cancelled = False,
                      sendQueueLen = 0, toSend = [], sendCond = False,
                      lastSentTipset = None \<rparr>],
             MaxFilterHeightRange = 50 \<rparr>) [7]) = (True, None)"
proof -
  let ?e = "\<lparr> FilterStore = \<lparr> store_filters = Map.empty, store_max = 10 \<rparr>,
             EventFilterManager = {}, TipSetFilterManager = {}, MemPoolFilterManager = {},
             EventIndex = True,
             subs = [[7] \<mapsto> 0],
             heap = [\<lparr> sub_id = [7], filters = [], quit = True, ctx_cancelled = False,
                      sendQueueLen = 0, toSend = [], sendCond = False,
                      lastSentTipset = None \<rparr>],
             MaxFilterHeightRange = 50 \<rparr>"
  have a: "[9] \<notin> dom (store_filters (FilterStore ?e))" by simp
  have b: "subs ?e [9] = None" by simp
  have c: "fst (StopSubscription ?e [7]) = None" by (simp add: StopSubscription_def)
  from not_found_reported_by_boolean [of "[9]" ?e "[9]"] a b
  have "EthUninstallFilter (Some ?e) [9] = ((False, None), Some ?e) \<and>
      fst (EthUnsubscribe (Some ?e) [9]) = (False, None)"
    by blast
  moreover from not_found_reported_by_boolean [of "[9]" ?e "[7]"] c
  have "fst (EthUnsubscribe (Some ?e) [7]) = (True, None)" by blast
  ultimately show ?thesis by blast
qed


section \<open>Tearing a subscription down\<close>

lemma uninstallFilter_frame:
  "heap (snd (uninstallFilter e f)) = heap e \<and> subs (snd (uninstallFilter e f)) = subs e"
  by (cases f)
     (auto simp: uninstallFilter_def store_Remove_def split: sum.splits)

lemma uninstallFilter_shrinks:
  "filter_registered (snd (uninstallFilter e f)) g \<Longrightarrow> filter_registered e g"
  by (cases f; cases g)
     (auto simp: uninstallFilter_def store_Remove_def remove_tolerant_def manager_Remove_def
        split: sum.splits if_splits)

lemma uninstallFilter_removes: "\<not> filter_registered (snd (uninstallFilter e f)) f"
  by (cases f)
     (auto simp: uninstallFilter_def store_Remove_def remove_tolerant_def manager_Remove_def
        split: sum.splits if_splits)

lemma uninstall_all_frame:
  "heap (uninstall_all e fs) = heap e \<and> subs (uninstall_all e fs) = subs e"
  by (induction fs arbitrary: e) (simp_all add: uninstallFilter_frame)

lemma uninstall_all_shrinks:
  "filter_registered (uninstall_all e fs) g \<Longrightarrow> filter_registered e g"
  by (induction fs arbitrary: e) (auto dest: uninstallFilter_shrinks)

lemma uninstall_all_removes:
  "f \<in> set fs \<Longrightarrow> \<not> filter_registered (uninstall_all e fs) f"
proof (induction fs arbitrary: e)
  case Nil
  then show ?case by simp
next
  case (Cons g fs)
  show ?case
  proof (cases "f = g")
    case True
    have "\<not> filter_registered (snd (uninstallFilter e g)) g"
      by (rule uninstallFilter_removes)
    then show ?thesis using True uninstall_all_shrinks by auto
  next
    case False
    with Cons show ?thesis by simp
  qed
qed

lemma stop_running:
  assumes "a < length (heap e)" and "quit (heap e ! a)"
  shows "heap (stop e a) =
           (heap e)[a := (heap e ! a)\<lparr> ctx_cancelled := True, quit := False \<rparr>]"
    and "subs (stop e a) = subs e"
    and "\<forall>f\<in>set (filters (heap e ! a)). \<not> filter_registered (stop e a) f"
  using assms
  by (simp_all add: stop_def Let_def uninstall_all_frame uninstall_all_removes)

lemma stop_stopped: "\<not> quit (heap e ! a) \<Longrightarrow> stop e a = e"
  by (simp add: stop_def)

lemma send_over_cap:
  assumes a: "a < length (heap e)" and run: "quit (heap e ! a)"
    and full: "maxSendQueue \<le> sendQueueLen (heap e ! a)"
  shows "heap (send e a (Inr p)) =
           (heap e)[a := (heap e ! a)\<lparr> toSend := toSend (heap e ! a) @ [p],
                                        sendQueueLen := sendQueueLen (heap e ! a) + 1,
                                        ctx_cancelled := True, quit := False \<rparr>]"
    and "subs (send e a (Inr p)) = subs e"
    and "\<forall>f\<in>set (filters (heap e ! a)). \<not> filter_registered (send e a (Inr p)) f"
proof -
  let ?s = "(heap e ! a)\<lparr> toSend := toSend (heap e ! a) @ [p],
                          sendQueueLen := sendQueueLen (heap e ! a) + 1 \<rparr>"
  let ?e1 = "e\<lparr> heap := (heap e)[a := ?s] \<rparr>"
  have s: "send e a (Inr p) = stop ?e1 a"
    using full by (simp add: send_def Let_def)
  have a1: "a < length (heap ?e1)" using a by simp
  have q1: "quit (heap ?e1 ! a)" using a run by simp
  have f1: "filters (heap ?e1 ! a) = filters (heap e ! a)" using a by simp
  show "heap (send e a (Inr p)) =
           (heap e)[a := (heap e ! a)\<lparr> toSend := toSend (heap e ! a) @ [p],
                                        sendQueueLen := sendQueueLen (heap e ! a) + 1,
                                        ctx_cancelled := True, quit := False \<rparr>]"
    using stop_running(1) [OF a1 q1] a by (simp add: s)
  show "subs (send e a (Inr p)) = subs e"
    using stop_running(2) [OF a1 q1] by (simp add: s)
  show "\<forall>f\<in>set (filters (heap e ! a)). \<not> filter_registered (send e a (Inr p)) f"
    using stop_running(3) [OF a1 q1] f1 by (simp add: s)
qed

lemma send_stopped:
  assumes a: "a < length (heap e)" and stopped: "\<not> quit (heap e ! a)"
  shows "send e a (Inr p) =
     e\<lparr> heap := (heap e)[a := (heap e ! a)
          \<lparr> toSend := toSend (heap e ! a) @ [p],
            sendQueueLen := sendQueueLen (heap e ! a) + 1,
            sendCond := (if maxSendQueue < sendQueueLen (heap e ! a) + 1
                         then sendCond (heap e ! a) else True) \<rparr>] \<rparr>"
proof (cases "maxSendQueue < sendQueueLen (heap e ! a) + 1")
  case True
  let ?s = "(heap e ! a)\<lparr> toSend := toSend (heap e ! a) @ [p],
                          sendQueueLen := sendQueueLen (heap e ! a) + 1 \<rparr>"
  let ?e1 = "e\<lparr> heap := (heap e)[a := ?s] \<rparr>"
  have "\<not> quit (heap ?e1 ! a)" using a stopped by simp
  then have "stop ?e1 a = ?e1" by (rule stop_stopped)
  with True show ?thesis by (simp add: send_def Let_def)
next
  case False
  then show ?thesis using a by (simp add: send_def Let_def)
qed

text \<open>C5, as stated, fails in its last part: after a subscription has been terminated a
  further \<^verbatim>\<open>send\<close> is not a no-op. Here the subscription at address 0 is terminated
  with 20001 payloads counted; one more \<^verbatim>\<open>send\<close> appends its payload and counts it.\<close>

theorem send_after_termination_counterexample:
  "\<not> quit (heap
      \<lparr> FilterStore = \<lparr> store_filters = Map.empty, store_max = 10 \<rparr>,
        EventFilterManager = {}, TipSetFilterManager = {}, MemPoolFilterManager = {},
        EventIndex = True, subs = Map.empty,
        heap = [\<lparr> sub_id = [7], filters = [TipSetFilter [5]], quit = False,
                 ctx_cancelled = True, sendQueueLen = 20001,
                 toSend = replicate 20001 [0], sendCond = False,
                 lastSentTipset = None \<rparr>],
        MaxFilterHeightRange = 50 \<rparr> ! 0) \<and>
   send
      \<lparr> FilterStore = \<lparr> store_filters = Map.empty, store_max = 10 \<rparr>,
        EventFilterManager = {}, TipSetFilterManager = {}, MemPoolFilterManager = {},
        EventIndex = True, subs = Map.empty,
        heap = [\<lparr> sub_id = [7], filters = [TipSetFilter [5]], quit = False,
                 ctx_cancelled = True, sendQueueLen = 20001,
                 toSend = replicate 20001 [0], sendCond = False,
                 lastSentTipset = None \<rparr>],
        MaxFilterHeightRange = 50 \<rparr> 0 (Inr [1]) =
      \<lparr> FilterStore = \<lparr> store_filters = Map.empty, store_max = 10 \<rparr>,
        EventFilterManager = {}, TipSetFilterManager = {}, MemPoolFilterManager = {},
        EventIndex = True, subs = Map.empty,
        heap = [\<lparr> sub_id = [7], filters = [TipSetFilter [5]], quit = False,
                 ctx_cancelled = True, sendQueueLen = 20002,
                 toSend = replicate 20001 [0] @ [[1]], sendCond = False,
                 lastSentTipset = None \<rparr>],
        MaxFilterHeightRange = 50 \<rparr> \<and>
   send
      \<lparr> FilterStore = \<lparr> store_filters = Map.empty, store_max = 10 \<rparr>,
        EventFilterManager = {}, TipSetFilterManager = {}, MemPoolFilterManager = {},
        EventIndex = True, subs = Map.empty,
        heap = [\<lparr> sub_id = [7], filters = [TipSetFilter [5]], quit = False,
                 ctx_cancelled = True, sendQueueLen = 20001,
                 toSend = replicate 20001 [0], sendCond = False,
                 lastSentTipset = None \<rparr>],
        MaxFilterHeightRange = 50 \<rparr> 0 (Inr [1]) \<noteq>
      \<lparr> FilterStore = \<lparr> store_filters = Map.empty, store_max = 10 \<rparr>,
        EventFilterManager = {}, TipSetFilterManager = {}, MemPoolFilterManager = {},
        EventIndex = True, subs = Map.empty,
        heap = [\<lparr> sub_id = [7], filters = [TipSetFilter [5]], quit = False,
                 ctx_cancelled = True, sendQueueLen = 20001,
                 toSend = replicate 20001 [0], sendCond = False,
                 lastSentTipset = None \<rparr>],
        MaxFilterHeightRange = 50 \<rparr>"
  by (simp add: send_def stop_def maxSendQueue_def Let_def)

text \<open>C5, amended. For a subscription that is running, a \<^verbatim>\<open>send\<close> that raises the counter
  above 20000 enqueues its payload and tears the subscription down: the context of the
  stages is cancelled, \<^verbatim>\<open>quit\<close> is cleared, and no attached filter is registered with
  its manager any more; the registry of subscriptions is not touched. After
  termination a further \<^verbatim>\<open>send\<close> changes the subscription only: it appends its payload,
  counts it and, while the counter is within the cap, raises the wake-up signal; it tears
  down nothing.\<close>

theorem send_teardown:
  assumes "a < length (heap e)"
  shows "(quit (heap e ! a) \<and> 20000 \<le> sendQueueLen (heap e ! a) \<longrightarrow>
            heap (send e a (Inr p)) =
              (heap e)[a := (heap e ! a)\<lparr> toSend := toSend (heap e ! a) @ [p],
                                           sendQueueLen := sendQueueLen (heap e ! a) + 1,
                                           ctx_cancelled := True, quit := False \<rparr>] \<and>
            subs (send e a (Inr p)) = subs e \<and>
            (\<forall>f\<in>set (filters (heap e ! a)). \<not> filter_registered (send e a (Inr p)) f)) \<and>
         (\<not> quit (heap e ! a) \<longrightarrow>
            send e a (Inr p) =
              e\<lparr> heap := (heap e)[a := (heap e ! a)
                   \<lparr> toSend := toSend (heap e ! a) @ [p],
                     sendQueueLen := sendQueueLen (heap e ! a) + 1,
                     sendCond := (if 20000 < sendQueueLen (heap e ! a) + 1
                                  then sendCond (heap e ! a) else True) \<rparr>] \<rparr>)"
  using send_over_cap [OF assms, of p] send_stopped [OF assms, of p]
  by (simp add: maxSendQueue_def)

theorem send_teardown_witness:
  "heap (send
      \<lparr> FilterStore = \<lparr> store_filters = Map.empty, store_max = 10 \<rparr>,
        EventFilterManager = {}, TipSetFilterManager = {[5]}, MemPoolFilterManager = {},
        EventIndex = True, subs = [[7] \<mapsto> 0],
        heap = [\<lparr> sub_id = [7], filters = [TipSetFilter [5]], quit = True,
                 ctx_cancelled = False, sendQueueLen = 20000,
                 toSend = replicate 20000 [0], sendCond = True,
                 lastSentTipset = None \<rparr>],
        MaxFilterHeightRange = 50 \<rparr> 0 (Inr [1])) =
     [\<lparr> sub_id = [7], filters = [TipSetFilter [5]], quit = False,
        ctx_cancelled = True, sendQueueLen = 20001,
        toSend = replicate 20000 [0] @ [[1]], sendCond = True,
        lastSentTipset = None \<rparr>] \<and>
   \<not> filter_registered (send
      \<lparr> FilterStore = \<lparr> store_filters = Map.empty, store_max = 10 \<rparr>,
        EventFilterManager = {}, TipSetFilterManager = {[5]}, MemPoolFilterManager = {},
        EventIndex = True, subs = [[7] \<mapsto> 0],
        heap = [\<lparr> sub_id = [7], filters = [TipSetFilter [5]], quit = True,
                 ctx_cancelled = False, sendQueueLen = 20000,
                 toSend = replicate 20000 [0], sendCond = True,
                 lastSentTipset = None \<rparr>],
        MaxFilterHeightRange = 50 \<rparr> 0 (Inr [1])) (TipSetFilter [5])"
proof -
  let ?e = "\<lparr> FilterStore = \<lparr> store_filters = Map.empty, store_max = 10 \<rparr>,
        EventFilterManager = {}, TipSetFilterManager = {[5]}, MemPoolFilterManager = {},
        EventIndex = True, subs = [[7] \<mapsto> 0],
        heap = [\<lparr> sub_id = [7], filters = [TipSetFilter [5]], quit = True,
                 ctx_cancelled = False, sendQueueLen = 20000,
                 toSend = replicate 20000 [0], sendCond = True,
                 lastSentTipset = None \<rparr>],
        MaxFilterHeightRange = 50 \<rparr>"
  have a: "0 < length (heap ?e)" by simp
  have h: "quit (heap ?e ! 0) \<and> 20000 \<le> sendQueueLen (heap ?e ! 0)" by simp
  from send_teardown [OF a, of "[1]"] h
  have "heap (send ?e 0 (Inr [1])) =
          (heap ?e)[0 := (heap ?e ! 0)\<lparr> toSend := toSend (heap ?e ! 0) @ [[1]],
                                       sendQueueLen := sendQueueLen (heap ?e ! 0) + 1,
                                       ctx_cancelled := True, quit := False \<rparr>] \<and>
        (\<forall>f\<in>set (filters (heap ?e ! 0)). \<not> filter_registered (send ?e 0 (Inr [1])) f)"
    by blast
  then show ?thesis by simp
qed


section \<open>Tipset notifications in the ingest stage\<close>

lemma stop_length: "length (heap (stop e a)) = length (heap e)"
  by (simp add: stop_def Let_def uninstall_all_frame)

lemma send_length: "length (heap (send e a m)) = length (heap e)"
  by (cases m) (simp_all add: send_def Let_def stop_length)

lemma stop_toSend:
  "a < length (heap e) \<Longrightarrow> toSend (heap (stop e a) ! a) = toSend (heap e ! a)"
  by (simp add: stop_def Let_def uninstall_all_frame)

lemma send_enqueues:
  assumes "a < length (heap e)"
  shows "toSend (heap (send e a (Inr p)) ! a) = toSend (heap e ! a) @ [p]"
  using assms by (simp add: send_def Let_def stop_toSend)

lemma start_step_accepted:
  assumes "TsHeight vt \<noteq> 0" and "lastSentTipset (heap e ! a) \<noteq> Some (TsParents vt)"
    and "ChainGetTipSet env (TsParents vt) = Inr parent"
    and "newEthBlockFromFilecoinTipSet env parent = Inr blk"
  shows "start_step env e a (InTipSet vt) =
     (send e a (Marshal env (sub_id (heap e ! a)) (BlockValue blk)))
       \<lparr> heap := (heap (send e a (Marshal env (sub_id (heap e ! a)) (BlockValue blk))))
           [a := (heap (send e a (Marshal env (sub_id (heap e ! a)) (BlockValue blk))) ! a)
              \<lparr> lastSentTipset := Some (TsParents vt) \<rparr>] \<rparr>"
  using assms by (simp add: start_step_def Let_def)

lemma start_step_skips:
  "TsHeight vt = 0 \<or> lastSentTipset (heap e ! a) = Some (TsParents vt) \<Longrightarrow>
   start_step env e a (InTipSet vt) = e"
  by (auto simp: start_step_def)

text \<open>C6, as stated, fails where it says that no record is sent when the parent is at
  height 0: the stage tests the height of the newly-seen head, not of its parent. Here
  the head is at height 1, its parent (key \<open>[[1]]\<close>) resolves to a tipset at height 0,
  and a block record is sent for it.\<close>

theorem parent_at_height_zero_counterexample:
  "ChainGetTipSet
      \<lparr> stage_logs = \<lparr> EthAddressFromFilecoinAddress = Inr,
                        ethTxHashFromMessageCid = Inr, TipSetKey_Cid = (\<lambda>k. Inr []),
                        EthHashFromCid = Inr \<rparr>,
        ethTxHashFromSignedMessage = Inr,
        ChainGetTipSet = (\<lambda>k. Inr \<lparr> TsHeight = 0, TsKey = k, TsParents = [] \<rparr>),
        newEthBlockFromFilecoinTipSet = (\<lambda>ts. Inr [5]),
        Marshal = (\<lambda>i v. Inr [1]) \<rparr>
      (TsParents \<lparr> TsHeight = 1, TsKey = [[2]], TsParents = [[1]] \<rparr>) =
     Inr \<lparr> TsHeight = 0, TsKey = [[1]], TsParents = [] \<rparr> \<and>
   toSend (heap (start_step
      \<lparr> stage_logs = \<lparr> EthAddressFromFilecoinAddress = Inr,
                        ethTxHashFromMessageCid = Inr, TipSetKey_Cid = (\<lambda>k. Inr []),
                        EthHashFromCid = Inr \<rparr>,
        ethTxHashFromSignedMessage = Inr,
        ChainGetTipSet = (\<lambda>k. Inr \<lparr> TsHeight = 0, TsKey = k, TsParents = [] \<rparr>),
        newEthBlockFromFilecoinTipSet = (\<lambda>ts. Inr [5]),
        Marshal = (\<lambda>i v. Inr [1]) \<rparr>
      \<lparr> FilterStore = \<lparr> store_filters = Map.empty, store_max = 10 \<rparr>,
        EventFilterManager = {}, TipSetFilterManager = {[5]}, MemPoolFilterManager = {},
        EventIndex = True, subs = [[7] \<mapsto> 0],
        heap = [\<lparr> sub_id = [7], filters = [TipSetFilter [5]], quit = True,
                 ctx_cancelled = False, sendQueueLen = 0, toSend = [], sendCond = False,
                 lastSentTipset = None \<rparr>],
        MaxFilterHeightRange = 50 \<rparr>
      0 (InTipSet \<lparr> TsHeight = 1, TsKey = [[2]], TsParents = [[1]] \<rparr>)) ! 0) = [[1]]"
  by (simp add: start_step_def send_def maxSendQueue_def Let_def)

text \<open>C6, amended. On a tipset notification the stage sends no record when the
  newly-seen head itself is at height 0, or when the key of its parents equals the
  last-sent key. Otherwise, when the parent tipset loads and a block composes from it,
  the stage calls \<^verbatim>\<open>send\<close> exactly once, with that block, and records the key of the
  parents as last-sent (the encoded block is appended to the queue when the encoding
  succeeds); a following notification with the same parents then changes nothing, so two
  consecutive notifications with the same parents send one block record.\<close>

theorem tipset_notification:
  assumes "a < length (heap e)"
  shows "(TsHeight vt = 0 \<longrightarrow> start_step env e a (InTipSet vt) = e) \<and>
         (lastSentTipset (heap e ! a) = Some (TsParents vt) \<longrightarrow>
            start_step env e a (InTipSet vt) = e) \<and>
         (\<forall>parent blk.
            TsHeight vt \<noteq> 0 \<and> lastSentTipset (heap e ! a) \<noteq> Some (TsParents vt) \<and>
            ChainGetTipSet env (TsParents vt) = Inr parent \<and>
            newEthBlockFromFilecoinTipSet env parent = Inr blk \<longrightarrow>
              start_step env e a (InTipSet vt) =
                (send e a (Marshal env (sub_id (heap e ! a)) (BlockValue blk)))
                  \<lparr> heap :=
                      (heap (send e a (Marshal env (sub_id (heap e ! a)) (BlockValue blk))))
                      [a := (heap (send e a (Marshal env (sub_id (heap e ! a))
                                               (BlockValue blk))) ! a)
                         \<lparr> lastSentTipset := Some (TsParents vt) \<rparr>] \<rparr> \<and>
              lastSentTipset (heap (start_step env e a (InTipSet vt)) ! a) =
                Some (TsParents vt) \<and>
              (\<forall>p. Marshal env (sub_id (heap e ! a)) (BlockValue blk) = Inr p \<longrightarrow>
                 toSend (heap (start_step env e a (InTipSet vt)) ! a) =
                   toSend (heap e ! a) @ [p]) \<and>
              (\<forall>vt'. TsParents vt' = TsParents vt \<longrightarrow>
                 start_loop env e a [InTipSet vt, InTipSet vt'] =
                   start_step env e a (InTipSet vt)))"
proof (intro conjI allI impI)
  show "start_step env e a (InTipSet vt) = e" if "TsHeight vt = 0"
    using that by (simp add: start_step_skips)
  show "start_step env e a (InTipSet vt) = e"
    if "lastSentTipset (heap e ! a) = Some (TsParents vt)"
    using that by (simp add: start_step_skips)
next
  fix parent blk
  assume h: "TsHeight vt \<noteq> 0 \<and> lastSentTipset (heap e ! a) \<noteq> Some (TsParents vt) \<and>
            ChainGetTipSet env (TsParents vt) = Inr parent \<and>
            newEthBlockFromFilecoinTipSet env parent = Inr blk"
  let ?e1 = "send e a (Marshal env (sub_id (heap e ! a)) (BlockValue blk))"
  have step: "start_step env e a (InTipSet vt) =
      ?e1\<lparr> heap := (heap ?e1)[a := (heap ?e1 ! a)\<lparr> lastSentTipset := Some (TsParents vt) \<rparr>] \<rparr>"
    using h by (simp add: start_step_accepted)
  have a1: "a < length (heap ?e1)" using assms by (simp add: send_length)
  show "start_step env e a (InTipSet vt) =
      ?e1\<lparr> heap := (heap ?e1)[a := (heap ?e1 ! a)\<lparr> lastSentTipset := Some (TsParents vt) \<rparr>] \<rparr>"
    by (rule step)
  show last: "lastSentTipset (heap (start_step env e a (InTipSet vt)) ! a) =
      Some (TsParents vt)"
    using a1 by (simp add: step)
  show "toSend (heap (start_step env e a (InTipSet vt)) ! a) = toSend (heap e ! a) @ [p]"
    if "Marshal env (sub_id (heap e ! a)) (BlockValue blk) = Inr p" for p
    using that a1 send_enqueues [OF assms, of p] by (simp add: step)
  show "start_loop env e a [InTipSet vt, InTipSet vt'] = start_step env e a (InTipSet vt)"
    if "TsParents vt' = TsParents vt" for vt'
  proof -
    from last that
    have "lastSentTipset (heap (start_step env e a (InTipSet vt)) ! a) = Some (TsParents vt')"
      by simp
    then have "start_step env (start_step env e a (InTipSet vt)) a (InTipSet vt') =
        start_step env e a (InTipSet vt)"
      by (simp add: start_step_skips)
    then show ?thesis by simp
  qed
qed

theorem tipset_notification_witness:
  "toSend (heap (start_loop
      \<lparr> stage_logs = \<lparr> EthAddressFromFilecoinAddress = Inr,
                        ethTxHashFromMessageCid = Inr, TipSetKey_Cid = (\<lambda>k. Inr []),
                        EthHashFromCid = Inr \<rparr>,
        ethTxHashFromSignedMessage = Inr,
        ChainGetTipSet = (\<lambda>k. Inr \<lparr> TsHeight = 4, TsKey = k, TsParents = [] \<rparr>),
        newEthBlockFromFilecoinTipSet = (\<lambda>ts. Inr [5]),
        Marshal = (\<lambda>i v. Inr [1]) \<rparr>
      \<lparr> FilterStore = \<lparr> store_filters = Map.empty, store_max = 10 \<rparr>,
        EventFilterManager = {}, TipSetFilterManager = {[5]}, MemPoolFilterManager = {},
        EventIndex = True, subs = [[7] \<mapsto> 0],
        heap = [\<lparr> sub_id = [7], filters = [TipSetFilter [5]], quit = True,
                 ctx_cancelled = False, sendQueueLen = 0, toSend = [], sendCond = False,
                 lastSentTipset = None \<rparr>],
        MaxFilterHeightRange = 50 \<rparr>
      0 [InTipSet \<lparr> TsHeight = 5, TsKey = [[2]], TsParents = [[1]] \<rparr>,
         InTipSet \<lparr> TsHeight = 5, TsKey = [[3]], TsParents = [[1]] \<rparr>]) ! 0) = [[1]]"
proof -
  let ?env = "\<lparr> stage_logs = \<lparr> EthAddressFromFilecoinAddress = Inr,
                        ethTxHashFromMessageCid = Inr, TipSetKey_Cid = (\<lambda>k. Inr []),
                        EthHashFromCid = Inr \<rparr>,
        ethTxHashFromSignedMessage = Inr,
        ChainGetTipSet = (\<lambda>k. Inr \<lparr> TsHeight = 4, TsKey = k, TsParents = [] \<rparr>),
        newEthBlockFromFilecoinTipSet = (\<lambda>ts. Inr [5]),
        Marshal = (\<lambda>i v. Inr [1]) \<rparr>"
  let ?e = "\<lparr> FilterStore = \<lparr> store_filters = Map.empty, store_max = 10 \<rparr>,
        EventFilterManager = {}, TipSetFilterManager = {[5]}, MemPoolFilterManager = {},
        EventIndex = True, subs = [[7] \<mapsto> 0],
        heap = [\<lparr> sub_id = [7], filters = [TipSetFilter [5]], quit = True,
                 ctx_cancelled = False, sendQueueLen = 0, toSend = [], sendCond = False,
                 lastSentTipset = None \<rparr>],
        MaxFilterHeightRange = 50 \<rparr>"
  let ?vt = "\<lparr> TsHeight = 5, TsKey = [[2]], TsParents = [[1]] \<rparr>"
  let ?vt' = "\<lparr> TsHeight = 5, TsKey = [[3]], TsParents = [[1]] \<rparr>"
  have a: "0 < length (heap ?e)" by simp
  have h: "TsHeight ?vt \<noteq> 0 \<and> lastSentTipset (heap ?e ! 0) \<noteq> Some (TsParents ?vt) \<and>
      ChainGetTipSet ?env (TsParents ?vt) = Inr \<lparr> TsHeight = 4, TsKey = [[1]], TsParents = [] \<rparr> \<and>
      newEthBlockFromFilecoinTipSet ?env \<lparr> TsHeight = 4, TsKey = [[1]], TsParents = [] \<rparr> =
        Inr [5]"
    by simp
  have m: "Marshal ?env (sub_id (heap ?e ! 0)) (BlockValue [5]) = Inr [1]" by simp
  have p: "TsParents ?vt' = TsParents ?vt" by simp
  from tipset_notification [OF a, of ?vt ?env] h m p
  have "toSend (heap (start_step ?env ?e 0 (InTipSet ?vt)) ! 0) = toSend (heap ?e ! 0) @ [[1]] \<and>
      start_loop ?env ?e 0 [InTipSet ?vt, InTipSet ?vt'] = start_step ?env ?e 0 (InTipSet ?vt)"
    by blast
  then show ?thesis by simp
qed


section \<open>Errors of EthSubscribe after the subscription was registered\<close>

text \<open>C4 does not hold on two of the error paths of \<^verbatim>\<open>EthSubscribe\<close>. The other error
  paths, such as a failure to parse the topics of a \<open>logs\<close> subscription, call
  \<^verbatim>\<open>EthUnsubscribe\<close> first: the subscription is stopped and leaves the registry. For an
  unsupported event type, and for an address of a \<open>logs\<close> subscription that does not
  convert, the error is returned at once: the subscription started by
  \<^verbatim>\<open>StartSubscription\<close> stays in the registry and keeps running. The three runs
  below start from an engine without subscriptions; the identifier drawn is \<open>[4]\<close>, the
  address \<open>[0]\<close> does not convert and only the empty topic list parses.\<close>

theorem EthSubscribe_error_paths:
  "EthSubscribe
     \<lparr> EthUint64FromHex = (\<lambda>s. Inr 5), ChainHead = Inr 100, ToCid = (\<lambda>h. h),
       ToFilecoinAddress = (\<lambda>a. if a = [0] then Inl (Errorf ''bad address'') else Inr a),
       parseEthTopics = (\<lambda>t. if t = [] then Inr Map.empty else Inl (Errorf ''bad topic'')),
       install_event = (\<lambda>a. Inr [1]), install_tipset = Inr [2], install_mempool = Inr [3],
       new_uuid = Inr [4], reverse_client = True \<rparr>
     (Some \<lparr> FilterStore = \<lparr> store_filters = Map.empty, store_max = 10 \<rparr>,
             EventFilterManager = {}, TipSetFilterManager = {}, MemPoolFilterManager = {},
             EventIndex = True, subs = Map.empty, heap = [], MaxFilterHeightRange = 50 \<rparr>)
     (Inr \<lparr> EventType = ''newBlocks'', Params = None \<rparr>) =
     (Inl err_unsupported_event_type,
      Some \<lparr> FilterStore = \<lparr> store_filters = Map.empty, store_max = 10 \<rparr>,
             EventFilterManager = {}, TipSetFilterManager = {}, MemPoolFilterManager = {},
             EventIndex = True, subs = [[4] \<mapsto> 0],
             heap = [\<lparr> sub_id = [4], filters = [], quit = True, ctx_cancelled = False,
                      sendQueueLen = 0, toSend = [], sendCond = False,
                      lastSentTipset = None \<rparr>],
             MaxFilterHeightRange = 50 \<rparr>) \<and>
   EthSubscribe
     \<lparr> EthUint64FromHex = (\<lambda>s. Inr 5), ChainHead = Inr 100, ToCid = (\<lambda>h. h),
       ToFilecoinAddress = (\<lambda>a. if a = [0] then Inl (Errorf ''bad address'') else Inr a),
       parseEthTopics = (\<lambda>t. if t = [] then Inr Map.empty else Inl (Errorf ''bad topic'')),
       install_event = (\<lambda>a. Inr [1]), install_tipset = Inr [2], install_mempool = Inr [3],
       new_uuid = Inr [4], reverse_client = True \<rparr>
     (Some \<lparr> FilterStore = \<lparr> store_filters = Map.empty, store_max = 10 \<rparr>,
             EventFilterManager = {}, TipSetFilterManager = {}, MemPoolFilterManager = {},
             EventIndex = True, subs = Map.empty, heap = [], MaxFilterHeightRange = 50 \<rparr>)
     (Inr \<lparr> EventType = ''logs'',
            Params = Some \<lparr> SubTopics = [], SubAddress = [[0]] \<rparr> \<rparr>) =
     (Inl (Errorf ''invalid address''),
      Some \<lparr> FilterStore = \<lparr> store_filters = Map.empty, store_max = 10 \<rparr>,
             EventFilterManager = {}, TipSetFilterManager = {}, MemPoolFilterManager = {},
             EventIndex = True, subs = [[4] \<mapsto> 0],
             heap = [\<lparr> sub_id = [4], filters = [], quit = True, ctx_cancelled = False,
                      sendQueueLen = 0, toSend = [], sendCond = False,
                      lastSentTipset = None \<rparr>],
             MaxFilterHeightRange = 50 \<rparr>) \<and>
   EthSubscribe
     \<lparr> EthUint64FromHex = (\<lambda>s. Inr 5), ChainHead = Inr 100, ToCid = (\<lambda>h. h),
       ToFilecoinAddress = (\<lambda>a. if a = [0] then Inl (Errorf ''bad address'') else Inr a),
       parseEthTopics = (\<lambda>t. if t = [] then Inr Map.empty else Inl (Errorf ''bad topic'')),
       install_event = (\<lambda>a. Inr [1]), install_tipset = Inr [2], install_mempool = Inr [3],
       new_uuid = Inr [4], reverse_client = True \<rparr>
     (Some \<lparr> FilterStore = \<lparr> store_filters = Map.empty, store_max = 10 \<rparr>,
             EventFilterManager = {}, TipSetFilterManager = {}, MemPoolFilterManager = {},
             EventIndex = True, subs = Map.empty, heap = [], MaxFilterHeightRange = 50 \<rparr>)
     (Inr \<lparr> EventType = ''logs'',
            Params = Some \<lparr> SubTopics = [[[1]]], SubAddress = [] \<rparr> \<rparr>) =
     (Inl (Errorf ''bad topic''),
      Some \<lparr> FilterStore = \<lparr> store_filters = Map.empty, store_max = 10 \<rparr>,
             EventFilterManager = {}, TipSetFilterManager = {}, MemPoolFilterManager = {},
             EventIndex = True, subs = Map.empty,
             heap = [\<lparr> sub_id = [4], filters = [], quit = False, ctx_cancelled = True,
                      sendQueueLen = 0, toSend = [], sendCond = False,
                      lastSentTipset = None \<rparr>],
             MaxFilterHeightRange = 50 \<rparr>)"
  by (simp add: EthSubscribe_def StartSubscription_def EthUnsubscribe_def
        StopSubscription_def stop_def Let_def
        EthSubscribeEventTypeHeads_def EthSubscribeEventTypeLogs_def
        EthSubscribeEventTypePendingTransactions_def)


section \<open>The upper height of a historical query\<close>









end
